theory Spec2Isabelle
  imports Main "HOL-Library.AList"
begin

section \<open>Strings as the server sees them\<close>

text \<open>
  The server decodes every inbound chunk as latin1 and encodes every outbound line as
  latin1, so a string is a list of bytes: \<^typ>\<open>string\<close>.
\<close>

definition crlf :: string where
  "crlf = [CHR 0x0D, CHR 0x0A]"

text \<open>\<^verbatim>\<open>message.split(' ')\<close>: split at every single space; the result is never empty.\<close>

fun split_sp :: "string \<Rightarrow> string list" where
  "split_sp [] = [[]]"
| "split_sp (ch # cs) =
     (if ch = CHR '' '' then [] # split_sp cs
      else (case split_sp cs of
              [] \<Rightarrow> [[ch]]
            | w # ws \<Rightarrow> (ch # w) # ws))"

text \<open>\<^verbatim>\<open>xs.join(' ')\<close> on an array of strings.\<close>

fun join_sp :: "string list \<Rightarrow> string" where
  "join_sp [] = []"
| "join_sp [w] = w"
| "join_sp (w # v # ws) = w @ CHR '' '' # join_sp (v # ws)"

text \<open>
  \<^verbatim>\<open>toUpperCase()\<close> on a latin1-decoded string, read back through the latin1 encoder
  (which keeps the low byte of every code unit). The letters a-z and the accented letters
  E0-FE other than the division sign F7 lose bit 5, which is a subtraction of 32; the sharp
  s DF becomes SS; the micro sign B5 becomes U+039C (low byte 9C); y with diaeresis FF
  becomes U+0178 (low byte 78). Neither escaped byte is an upper-case ASCII letter, so
  comparing the result with a verb is the comparison the switch makes.
\<close>

definition upper_char :: "char \<Rightarrow> string" where
  "upper_char ch =
     (if ch \<in> set ''abcdefghijklmnopqrstuvwxyz''
         \<or> (digit7 ch \<and> digit6 ch \<and> digit5 ch \<and> ch \<noteq> CHR 0xF7 \<and> ch \<noteq> CHR 0xFF)
      then [Char (digit0 ch) (digit1 ch) (digit2 ch) (digit3 ch) (digit4 ch) False (digit6 ch) (digit7 ch)]
      else if ch = CHR 0xB5 then [CHR 0x9C]
      else if ch = CHR 0xDF then ''SS''
      else if ch = CHR 0xFF then [CHR 0x78]
      else [ch])"

definition toUpperCase :: "string \<Rightarrow> string" where
  "toUpperCase s = concat (map upper_char s)"

text \<open>\<^verbatim>\<open>s.startsWith(ch)\<close> for a one-character prefix.\<close>

definition startsWith :: "string \<Rightarrow> char \<Rightarrow> bool" where
  "startsWith s ch = (case s of [] \<Rightarrow> False | x # _ \<Rightarrow> x = ch)"

text \<open>
  An optional string field is a \<^typ>\<open>string option\<close>, \<open>None\<close> being \<^verbatim>\<open>undefined\<close>. Its JavaScript
  truthiness: defined and not empty.
\<close>

definition truthy :: "string option \<Rightarrow> bool" where
  "truthy v = (case v of None \<Rightarrow> False | Some x \<Rightarrow> x \<noteq> [])"

text \<open>\<^verbatim>\<open>v || d\<close>.\<close>

definition or_default :: "string option \<Rightarrow> string \<Rightarrow> string" where
  "or_default v d = (case v of None \<Rightarrow> d | Some x \<Rightarrow> if x = [] then d else x)"

text \<open>An optional string inside a template literal: \<^verbatim>\<open>undefined\<close> prints as that word.\<close>

definition tmpl :: "string option \<Rightarrow> string" where
  "tmpl v = (case v of None \<Rightarrow> ''undefined'' | Some x \<Rightarrow> x)"

text \<open>An optional string as an element of \<^verbatim>\<open>Array.join\<close>: \<^verbatim>\<open>undefined\<close> prints as nothing.\<close>

definition join_elem :: "string option \<Rightarrow> string" where
  "join_elem v = (case v of None \<Rightarrow> [] | Some x \<Rightarrow> x)"

text \<open>A number inside a template literal: its decimal digits.\<close>

fun digits :: "nat \<Rightarrow> string" where
  "digits n = (if n < 10 then [char_of (48 + n)] else digits (n div 10) @ [char_of (48 + n mod 10)])"

declare digits.simps [simp del]

section \<open>Data model\<close>

text \<open>
  A socket is identified by a number. The two properties of a socket the core reads are
  kept with the client that owns it.
\<close>

type_synonym sock = nat

record Socket =
  writable :: bool
  destroyed :: bool

text \<open>\<^verbatim>\<open>interface IRCClient\<close>; \<open>channels\<close> is a \<^verbatim>\<open>Set\<close> in insertion order.\<close>

record IRCClient =
  socket :: Socket
  nickname :: "string option"
  username :: "string option"
  realname :: "string option"
  hostname :: string
  registered :: bool
  channels :: "string list"

text \<open>
  \<^verbatim>\<open>interface IRCChannel\<close>; \<open>clients\<close> is a \<^verbatim>\<open>Set\<close> of client references in insertion
  order, a reference being the socket of the client.
\<close>

record IRCChannel =
  name :: string
  clients :: "sock list"
  topic :: "string option"

text \<open>
  \<^verbatim>\<open>class IRCServer\<close>. \<open>srv_clients\<close> is \<^verbatim>\<open>this.clients\<close>, the keys of the map in insertion
  order (the value at a key is the object the store holds for that socket);
  \<open>srv_channels\<close> is \<^verbatim>\<open>this.channels\<close> in insertion order. \<open>heap\<close> is the store of client
  objects: an object outlives its removal from \<^verbatim>\<open>this.clients\<close>, since the socket's
  listeners keep it. \<open>out\<close> is every write to a socket, in order.
\<close>

record IRCServer =
  srv_clients :: "sock list"
  srv_channels :: "(string \<times> IRCChannel) list"
  heap :: "sock \<Rightarrow> IRCClient option"
  out :: "(sock \<times> string) list"

definition serverName :: string where
  "serverName = ''irc.comicserver.local''"

definition version :: string where
  "version = ''1.0.0''"

definition init :: IRCServer where
  "init = \<lparr>srv_clients = [], srv_channels = [], heap = (\<lambda>_. None), out = []\<rparr>"

text \<open>The connection listener of \<^verbatim>\<open>start\<close>: a new, unregistered client for a new socket.\<close>

definition connect :: "IRCServer \<Rightarrow> sock \<Rightarrow> string option \<Rightarrow> IRCServer" where
  "connect \<sigma> s remoteAddress =
     \<sigma>\<lparr>srv_clients := srv_clients \<sigma> @ [s],
       heap := (heap \<sigma>)(s \<mapsto>
         \<lparr>socket = \<lparr>writable = True, destroyed = False\<rparr>,
          nickname = None, username = None, realname = None,
          hostname = or_default remoteAddress ''unknown'',
          registered = False, channels = []\<rparr>)\<rparr>"

section \<open>Output\<close>

definition is_writable :: "IRCServer \<Rightarrow> sock \<Rightarrow> bool" where
  "is_writable \<sigma> s = (case heap \<sigma> s of None \<Rightarrow> False | Some c \<Rightarrow> writable (socket c))"

definition send :: "IRCServer \<Rightarrow> sock \<Rightarrow> string \<Rightarrow> IRCServer" where
  "send \<sigma> s message =
     (if is_writable \<sigma> s then \<sigma>\<lparr>out := out \<sigma> @ [(s, message @ crlf)]\<rparr> else \<sigma>)"

text \<open>The line a numeric reply puts on the wire, without its terminator.\<close>

definition reply_line :: "string option \<Rightarrow> string \<Rightarrow> string \<Rightarrow> string" where
  "reply_line nick code message =
     '':'' @ serverName @ '' '' @ code @ '' '' @ or_default nick ''*'' @ '' '' @ message"

definition sendReply :: "IRCServer \<Rightarrow> sock \<Rightarrow> string \<Rightarrow> string \<Rightarrow> IRCServer" where
  "sendReply \<sigma> s code message =
     (case heap \<sigma> s of
        None \<Rightarrow> \<sigma>
      | Some c \<Rightarrow> send \<sigma> s (reply_line (nickname c) code message))"

text \<open>\<^verbatim>\<open>broadcastToChannel\<close>: every member but the excluded one whose socket is writable.\<close>

definition broadcastToChannel ::
  "IRCServer \<Rightarrow> IRCChannel \<Rightarrow> string \<Rightarrow> sock option \<Rightarrow> IRCServer" where
  "broadcastToChannel \<sigma> channel message excludeClient =
     fold (\<lambda>m \<sigma>'. if Some m \<noteq> excludeClient \<and> is_writable \<sigma>' m then send \<sigma>' m message else \<sigma>')
       (clients channel) \<sigma>"

text \<open>The prefix \<^verbatim>\<open>:nick!user@host\<close> the handlers build in their template literals.\<close>

definition ident :: "IRCClient \<Rightarrow> string" where
  "ident c = '':'' @ tmpl (nickname c) @ ''!'' @ tmpl (username c) @ ''@'' @ hostname c"

section \<open>Registration\<close>

definition checkRegistration :: "IRCServer \<Rightarrow> sock \<Rightarrow> IRCServer" where
  "checkRegistration \<sigma> s =
     (case heap \<sigma> s of
        None \<Rightarrow> \<sigma>
      | Some c \<Rightarrow>
          if \<not> registered c \<and> truthy (nickname c) \<and> truthy (username c) then
            let \<sigma>0 = \<sigma>\<lparr>heap := (heap \<sigma>)(s \<mapsto> c\<lparr>registered := True\<rparr>)\<rparr>;
                \<sigma>1 = sendReply \<sigma>0 s ''001''
                       ('':Welcome to the Comic Chat IRC Network '' @ tmpl (nickname c) @ ''!''
                        @ tmpl (username c) @ ''@'' @ hostname c);
                \<sigma>2 = sendReply \<sigma>1 s ''002''
                       ('':Your host is '' @ serverName @ '', running version '' @ version);
                \<sigma>3 = sendReply \<sigma>2 s ''003''
                       '':This server was created for Microsoft Comic Chat compatibility''
            in sendReply \<sigma>3 s ''004'' (serverName @ '' '' @ version @ '' - -'')
          else \<sigma>)"

definition handleUser :: "IRCServer \<Rightarrow> sock \<Rightarrow> string list \<Rightarrow> IRCServer" where
  "handleUser \<sigma> s parts =
     (case heap \<sigma> s of
        None \<Rightarrow> \<sigma>
      | Some c \<Rightarrow>
          if length parts < 5 then sendReply \<sigma> s ''461'' ''USER :Not enough parameters''
          else checkRegistration
                 (\<sigma>\<lparr>heap := (heap \<sigma>)(s \<mapsto>
                       c\<lparr>username := Some (parts ! 1),
                         realname := Some (drop 1 (join_sp (drop 4 parts)))\<rparr>)\<rparr>) s)"

text \<open>The loop of \<^verbatim>\<open>handleNick\<close> over \<^verbatim>\<open>this.clients\<close>: another client holds the name.\<close>

definition nick_in_use :: "IRCServer \<Rightarrow> sock \<Rightarrow> string \<Rightarrow> bool" where
  "nick_in_use \<sigma> s newNick =
     list_ex (\<lambda>t. t \<noteq> s \<and> (case heap \<sigma> t of None \<Rightarrow> False | Some oc \<Rightarrow> nickname oc = Some newNick))
       (srv_clients \<sigma>)"

text \<open>
  \<^verbatim>\<open>client.channels.forEach\<close> with a broadcast to every channel of the list that exists,
  the client itself excluded: the loop of \<^verbatim>\<open>handleNick\<close> and of \<^verbatim>\<open>handleQuit\<close>.
\<close>

definition broadcastToChannels :: "IRCServer \<Rightarrow> sock \<Rightarrow> string list \<Rightarrow> string \<Rightarrow> IRCServer" where
  "broadcastToChannels \<sigma> s names message =
     fold (\<lambda>channelName \<sigma>'.
             case map_of (srv_channels \<sigma>') channelName of
               None \<Rightarrow> \<sigma>'
             | Some channel \<Rightarrow> broadcastToChannel \<sigma>' channel message (Some s))
       names \<sigma>"

definition handleNick :: "IRCServer \<Rightarrow> sock \<Rightarrow> string list \<Rightarrow> IRCServer" where
  "handleNick \<sigma> s parts =
     (case heap \<sigma> s of
        None \<Rightarrow> \<sigma>
      | Some c \<Rightarrow>
          if length parts < 2 then sendReply \<sigma> s ''431'' '':No nickname given''
          else
            let newNick = parts ! 1 in
            if nick_in_use \<sigma> s newNick then
              sendReply \<sigma> s ''433'' (newNick @ '' :Nickname is already in use'')
            else
              let oldNick = nickname c;
                  \<sigma>1 = \<sigma>\<lparr>heap := (heap \<sigma>)(s \<mapsto> c\<lparr>nickname := Some newNick\<rparr>)\<rparr>;
                  \<sigma>2 = (if registered c \<and> truthy oldNick then
                          broadcastToChannels \<sigma>1 s (channels c)
                            ('':'' @ tmpl oldNick @ ''!'' @ tmpl (username c) @ ''@'' @ hostname c
                             @ '' NICK :'' @ newNick)
                        else \<sigma>1)
              in checkRegistration \<sigma>2 s)"

section \<open>Channels\<close>

text \<open>\<^verbatim>\<open>Set.add\<close> on a set kept in insertion order.\<close>

definition set_add :: "'a \<Rightarrow> 'a list \<Rightarrow> 'a list" where
  "set_add x xs = (if x \<in> set xs then xs else xs @ [x])"

definition handleJoin :: "IRCServer \<Rightarrow> sock \<Rightarrow> string list \<Rightarrow> IRCServer" where
  "handleJoin \<sigma> s parts =
     (case heap \<sigma> s of
        None \<Rightarrow> \<sigma>
      | Some c \<Rightarrow>
          if \<not> registered c then sendReply \<sigma> s ''451'' '':You have not registered''
          else if length parts < 2 then sendReply \<sigma> s ''461'' ''JOIN :Not enough parameters''
          else
            let channelName = parts ! 1 in
            if \<not> startsWith channelName CHR ''#'' then
              sendReply \<sigma> s ''403'' (channelName @ '' :No such channel'')
            else
              let (channel, \<sigma>1) =
                    (case map_of (srv_channels \<sigma>) channelName of
                       Some ch \<Rightarrow> (ch, \<sigma>)
                     | None \<Rightarrow>
                         let ch = \<lparr>name = channelName, clients = [], topic = None\<rparr>
                         in (ch, \<sigma>\<lparr>srv_channels := AList.update channelName ch (srv_channels \<sigma>)\<rparr>))
              in
              if s \<in> set (clients channel) then \<sigma>1
              else
                let channel' = channel\<lparr>clients := set_add s (clients channel)\<rparr>;
                    \<sigma>2 = \<sigma>1\<lparr>srv_channels := AList.update channelName channel' (srv_channels \<sigma>1),
                            heap := (heap \<sigma>1)(s \<mapsto> c\<lparr>channels := set_add channelName (channels c)\<rparr>)\<rparr>;
                    \<sigma>3 = send \<sigma>2 s (ident c @ '' JOIN :'' @ channelName);
                    \<sigma>4 = (if truthy (topic channel') then
                            sendReply \<sigma>3 s ''332'' (channelName @ '' :'' @ tmpl (topic channel'))
                          else \<sigma>3);
                    names = join_sp (map (\<lambda>m. case heap \<sigma>4 m of None \<Rightarrow> [] | Some mc \<Rightarrow> join_elem (nickname mc))
                                       (clients channel'));
                    \<sigma>5 = sendReply \<sigma>4 s ''353'' (''= '' @ channelName @ '' :'' @ names);
                    \<sigma>6 = sendReply \<sigma>5 s ''366'' (channelName @ '' :End of /NAMES list'')
                in broadcastToChannel \<sigma>6 channel' (ident c @ '' JOIN :'' @ channelName) (Some s))"

text \<open>The two statements that take a client out of a channel, and the test that follows them.\<close>

definition leave_channel :: "sock \<Rightarrow> string \<Rightarrow> IRCChannel \<Rightarrow> (string \<times> IRCChannel) list
    \<Rightarrow> (string \<times> IRCChannel) list" where
  "leave_channel s channelName channel chans =
     (let channel' = channel\<lparr>clients := removeAll s (clients channel)\<rparr> in
      if length (clients channel') = 0 then AList.delete channelName chans
      else AList.update channelName channel' chans)"

definition handlePart :: "IRCServer \<Rightarrow> sock \<Rightarrow> string list \<Rightarrow> IRCServer" where
  "handlePart \<sigma> s parts =
     (case heap \<sigma> s of
        None \<Rightarrow> \<sigma>
      | Some c \<Rightarrow>
          if \<not> registered c then sendReply \<sigma> s ''451'' '':You have not registered''
          else if length parts < 2 then sendReply \<sigma> s ''461'' ''PART :Not enough parameters''
          else
            let channelName = parts ! 1 in
            (case map_of (srv_channels \<sigma>) channelName of
               None \<Rightarrow> sendReply \<sigma> s ''442'' (channelName @ '' :You'' @ [CHR 0x27] @ ''re not on that channel'')
             | Some channel \<Rightarrow>
                 if s \<notin> set (clients channel) then
                   sendReply \<sigma> s ''442'' (channelName @ '' :You'' @ [CHR 0x27] @ ''re not on that channel'')
                 else
                   let partMessage = join_sp (drop 2 parts);
                       fullMessage = (if partMessage \<noteq> [] then
                                        '' :'' @ (if startsWith partMessage CHR '':'' then drop 1 partMessage
                                                  else partMessage)
                                      else []);
                       \<sigma>1 = broadcastToChannel \<sigma> channel
                              (ident c @ '' PART '' @ channelName @ fullMessage) None
                   in \<sigma>1\<lparr>srv_channels := leave_channel s channelName channel (srv_channels \<sigma>1),
                         heap := (heap \<sigma>1)(s \<mapsto> c\<lparr>channels := removeAll channelName (channels c)\<rparr>)\<rparr>))"

text \<open>The body of the loop of \<^verbatim>\<open>removeClient\<close>.\<close>

definition detach :: "sock \<Rightarrow> string \<Rightarrow> (string \<times> IRCChannel) list \<Rightarrow> (string \<times> IRCChannel) list" where
  "detach s channelName chans =
     (case map_of chans channelName of
        None \<Rightarrow> chans
      | Some channel \<Rightarrow> leave_channel s channelName channel chans)"

definition destroy :: "Socket \<Rightarrow> Socket" where
  "destroy sk = sk\<lparr>writable := False, destroyed := True\<rparr>"

definition removeClient :: "IRCServer \<Rightarrow> sock \<Rightarrow> IRCServer" where
  "removeClient \<sigma> s =
     (case heap \<sigma> s of
        None \<Rightarrow> \<sigma>
      | Some c \<Rightarrow>
          \<sigma>\<lparr>srv_channels := fold (detach s) (channels c) (srv_channels \<sigma>),
            srv_clients := removeAll s (srv_clients \<sigma>),
            heap := (heap \<sigma>)(s \<mapsto>
              c\<lparr>socket := (if \<not> destroyed (socket c) then destroy (socket c) else socket c)\<rparr>)\<rparr>)"

definition handleQuit :: "IRCServer \<Rightarrow> sock \<Rightarrow> string list \<Rightarrow> IRCServer" where
  "handleQuit \<sigma> s parts =
     (case heap \<sigma> s of
        None \<Rightarrow> \<sigma>
      | Some c \<Rightarrow>
          let m = drop 1 (join_sp (drop 1 parts));
              quitMessage = (if m \<noteq> [] then m else ''Client Quit'');
              \<sigma>1 = broadcastToChannels \<sigma> s (channels c) (ident c @ '' QUIT :'' @ quitMessage)
          in removeClient \<sigma>1 s)"

section \<open>Messages and queries\<close>

text \<open>\<^verbatim>\<open>findClientByNickname\<close>: the first client of \<^verbatim>\<open>this.clients\<close> with that nickname.\<close>

definition findClientByNickname :: "IRCServer \<Rightarrow> string \<Rightarrow> sock option" where
  "findClientByNickname \<sigma> nick =
     find (\<lambda>t. case heap \<sigma> t of None \<Rightarrow> False | Some tc \<Rightarrow> nickname tc = Some nick)
       (srv_clients \<sigma>)"

definition handlePrivmsg :: "IRCServer \<Rightarrow> sock \<Rightarrow> string list \<Rightarrow> IRCServer" where
  "handlePrivmsg \<sigma> s parts =
     (case heap \<sigma> s of
        None \<Rightarrow> \<sigma>
      | Some c \<Rightarrow>
          if \<not> registered c then sendReply \<sigma> s ''451'' '':You have not registered''
          else if length parts < 3 then sendReply \<sigma> s ''461'' ''PRIVMSG :Not enough parameters''
          else
            let target = parts ! 1;
                message = drop 1 (join_sp (drop 2 parts))
            in
            if startsWith target CHR ''#'' then
              (case map_of (srv_channels \<sigma>) target of
                 None \<Rightarrow> sendReply \<sigma> s ''404'' (target @ '' :Cannot send to channel'')
               | Some channel \<Rightarrow>
                   if s \<notin> set (clients channel) then
                     sendReply \<sigma> s ''404'' (target @ '' :Cannot send to channel'')
                   else
                     broadcastToChannel \<sigma> channel
                       (ident c @ '' PRIVMSG '' @ target @ '' :'' @ message) (Some s))
            else
              (case findClientByNickname \<sigma> target of
                 None \<Rightarrow> sendReply \<sigma> s ''401'' (target @ '' :No such nick/channel'')
               | Some targetClient \<Rightarrow>
                   send \<sigma> targetClient (ident c @ '' PRIVMSG '' @ target @ '' :'' @ message)))"

definition handlePing :: "IRCServer \<Rightarrow> sock \<Rightarrow> string list \<Rightarrow> IRCServer" where
  "handlePing \<sigma> s parts =
     (if length parts < 2 then sendReply \<sigma> s ''461'' ''PING :Not enough parameters''
      else send \<sigma> s (''PONG '' @ serverName @ '' :'' @ parts ! 1))"

text \<open>The loop of \<^verbatim>\<open>handleWho\<close> over the members: one 352 line for a member with a nickname.\<close>

definition who_entries :: "IRCServer \<Rightarrow> sock \<Rightarrow> string \<Rightarrow> sock list \<Rightarrow> IRCServer" where
  "who_entries \<sigma> s target members =
     fold (\<lambda>m \<sigma>'.
             case heap \<sigma>' m of
               None \<Rightarrow> \<sigma>'
             | Some mc \<Rightarrow>
                 if truthy (nickname mc) then
                   sendReply \<sigma>' s ''352''
                     (target @ '' '' @ tmpl (username mc) @ '' '' @ hostname mc @ '' '' @ serverName
                      @ '' '' @ tmpl (nickname mc) @ '' H :0 '' @ tmpl (realname mc))
                 else \<sigma>')
       members \<sigma>"

definition handleWho :: "IRCServer \<Rightarrow> sock \<Rightarrow> string list \<Rightarrow> IRCServer" where
  "handleWho \<sigma> s parts =
     (case heap \<sigma> s of
        None \<Rightarrow> \<sigma>
      | Some c \<Rightarrow>
          if \<not> registered c then sendReply \<sigma> s ''451'' '':You have not registered''
          else if length parts < 2 then sendReply \<sigma> s ''315'' ''* :End of /WHO list''
          else
            let target = parts ! 1;
                \<sigma>1 = (if startsWith target CHR ''#'' then
                        (case map_of (srv_channels \<sigma>) target of
                           None \<Rightarrow> \<sigma>
                         | Some channel \<Rightarrow>
                             if s \<in> set (clients channel) then who_entries \<sigma> s target (clients channel)
                             else \<sigma>)
                      else \<sigma>)
            in sendReply \<sigma>1 s ''315'' (target @ '' :End of /WHO list''))"

definition handleWhois :: "IRCServer \<Rightarrow> sock \<Rightarrow> string list \<Rightarrow> IRCServer" where
  "handleWhois \<sigma> s parts =
     (case heap \<sigma> s of
        None \<Rightarrow> \<sigma>
      | Some c \<Rightarrow>
          if \<not> registered c then sendReply \<sigma> s ''451'' '':You have not registered''
          else if length parts < 2 then sendReply \<sigma> s ''431'' '':No nickname given''
          else
            let target = parts ! 1 in
            (case findClientByNickname \<sigma> target of
               None \<Rightarrow> sendReply \<sigma> s ''401'' (target @ '' :No such nick/channel'')
             | Some t \<Rightarrow>
                 (case heap \<sigma> t of
                    None \<Rightarrow> \<sigma>
                  | Some targetClient \<Rightarrow>
                      let \<sigma>1 = sendReply \<sigma> s ''311''
                                 (target @ '' '' @ tmpl (username targetClient) @ '' ''
                                  @ hostname targetClient @ '' * :'' @ tmpl (realname targetClient));
                          chans = join_sp (channels targetClient);
                          \<sigma>2 = (if chans \<noteq> [] then sendReply \<sigma>1 s ''319'' (target @ '' :'' @ chans)
                                else \<sigma>1);
                          \<sigma>3 = sendReply \<sigma>2 s ''312''
                                 (target @ '' '' @ serverName @ '' :Comic Chat IRC Server'')
                      in sendReply \<sigma>3 s ''318'' (target @ '' :End of /WHOIS list''))))"

definition handleList :: "IRCServer \<Rightarrow> sock \<Rightarrow> string list \<Rightarrow> IRCServer" where
  "handleList \<sigma> s parts =
     (case heap \<sigma> s of
        None \<Rightarrow> \<sigma>
      | Some c \<Rightarrow>
          if \<not> registered c then sendReply \<sigma> s ''451'' '':You have not registered''
          else
            let \<sigma>1 = sendReply \<sigma> s ''321'' ''Channel :Users  Name'';
                \<sigma>2 = fold (\<lambda>(k, channel) \<sigma>'.
                             sendReply \<sigma>' s ''322''
                               (name channel @ '' '' @ digits (length (clients channel)) @ '' :''
                                @ or_default (topic channel) []))
                        (srv_channels \<sigma>) \<sigma>1
            in sendReply \<sigma>2 s ''323'' '':End of /LIST'')"

definition handleTopic :: "IRCServer \<Rightarrow> sock \<Rightarrow> string list \<Rightarrow> IRCServer" where
  "handleTopic \<sigma> s parts =
     (case heap \<sigma> s of
        None \<Rightarrow> \<sigma>
      | Some c \<Rightarrow>
          if \<not> registered c then sendReply \<sigma> s ''451'' '':You have not registered''
          else if length parts < 2 then sendReply \<sigma> s ''461'' ''TOPIC :Not enough parameters''
          else
            let channelName = parts ! 1 in
            (case map_of (srv_channels \<sigma>) channelName of
               None \<Rightarrow> sendReply \<sigma> s ''442'' (channelName @ '' :You'' @ [CHR 0x27] @ ''re not on that channel'')
             | Some channel \<Rightarrow>
                 if s \<notin> set (clients channel) then
                   sendReply \<sigma> s ''442'' (channelName @ '' :You'' @ [CHR 0x27] @ ''re not on that channel'')
                 else if length parts = 2 then
                   (if truthy (topic channel) then
                      sendReply \<sigma> s ''332'' (channelName @ '' :'' @ tmpl (topic channel))
                    else sendReply \<sigma> s ''331'' (channelName @ '' :No topic is set''))
                 else
                   let newTopic = drop 1 (join_sp (drop 2 parts));
                       channel' = channel\<lparr>topic := Some newTopic\<rparr>;
                       \<sigma>1 = \<sigma>\<lparr>srv_channels := AList.update channelName channel' (srv_channels \<sigma>)\<rparr>
                   in broadcastToChannel \<sigma>1 channel'
                        (ident c @ '' TOPIC '' @ channelName @ '' :'' @ newTopic) None))"

definition handleMode :: "IRCServer \<Rightarrow> sock \<Rightarrow> string list \<Rightarrow> IRCServer" where
  "handleMode \<sigma> s parts =
     (case heap \<sigma> s of
        None \<Rightarrow> \<sigma>
      | Some c \<Rightarrow>
          if \<not> registered c then sendReply \<sigma> s ''451'' '':You have not registered''
          else if length parts < 2 then sendReply \<sigma> s ''461'' ''MODE :Not enough parameters''
          else
            let target = parts ! 1 in
            if Some target = nickname c then
              (if length parts = 2 then sendReply \<sigma> s ''221'' ''+''
               else send \<sigma> s (ident c @ '' MODE '' @ tmpl (nickname c) @ '' '' @ parts ! 2))
            else if startsWith target CHR ''#'' then
              (case map_of (srv_channels \<sigma>) target of
                 None \<Rightarrow> sendReply \<sigma> s ''442'' (target @ '' :You'' @ [CHR 0x27] @ ''re not on that channel'')
               | Some channel \<Rightarrow>
                   if s \<notin> set (clients channel) then
                     sendReply \<sigma> s ''442'' (target @ '' :You'' @ [CHR 0x27] @ ''re not on that channel'')
                   else if length parts = 2 then sendReply \<sigma> s ''324'' (target @ '' +'')
                   else broadcastToChannel \<sigma> channel
                          (ident c @ '' MODE '' @ target @ '' '' @ join_sp (drop 2 parts)) None)
            else sendReply \<sigma> s ''401'' (target @ '' :No such nick/channel''))"

section \<open>Dispatch\<close>

definition handleMessage :: "IRCServer \<Rightarrow> sock \<Rightarrow> string \<Rightarrow> IRCServer" where
  "handleMessage \<sigma> s message =
     (let parts = split_sp message;
          command = toUpperCase (hd parts)
      in
      if command = ''USER'' then handleUser \<sigma> s parts
      else if command = ''NICK'' then handleNick \<sigma> s parts
      else if command = ''JOIN'' then handleJoin \<sigma> s parts
      else if command = ''PART'' then handlePart \<sigma> s parts
      else if command = ''PRIVMSG'' then handlePrivmsg \<sigma> s parts
      else if command = ''PING'' then handlePing \<sigma> s parts
      else if command = ''QUIT'' then handleQuit \<sigma> s parts
      else if command = ''WHO'' then handleWho \<sigma> s parts
      else if command = ''WHOIS'' then handleWhois \<sigma> s parts
      else if command = ''LIST'' then handleList \<sigma> s parts
      else if command = ''TOPIC'' then handleTopic \<sigma> s parts
      else if command = ''MODE'' then handleMode \<sigma> s parts
      else sendReply \<sigma> s ''421'' (command @ '' :Unknown command''))"

text \<open>
  The one thing the runtime does to a socket that the core can see without being told: it
  ends the writable side (the peer hung up, or a write failed), after which
  \<^verbatim>\<open>socket.writable\<close> is false, and it tears the socket down, after which
  \<^verbatim>\<open>socket.destroyed\<close> is true as well. Both happen before the close listener runs; \<open>gone\<close>
  says whether the second has happened yet.
\<close>

definition socket_ended :: "IRCServer \<Rightarrow> sock \<Rightarrow> bool \<Rightarrow> IRCServer" where
  "socket_ended \<sigma> s gone =
     (case heap \<sigma> s of
        None \<Rightarrow> \<sigma>
      | Some c \<Rightarrow>
          \<sigma>\<lparr>heap := (heap \<sigma>)(s \<mapsto>
            c\<lparr>socket := \<lparr>writable = False, destroyed = (destroyed (socket c) \<or> gone)\<rparr>\<rparr>)\<rparr>)"

text \<open>
  What the connection manager can make the core do: accept a connection on a socket that
  no client has, hand one line of a client's socket to the dispatcher, and report that a
  socket closed or failed (both listeners call \<^verbatim>\<open>removeClient\<close>). The lines are the
  trimmed, non-empty pieces of a chunk; the relation takes any string. A line may still
  arrive for a client that has left the registry: the data listener finishes its chunk
  after a QUIT. The relation lets these events and the ending of a socket come in any
  order, which covers every order the runtime can produce.
\<close>

datatype event = Connect sock "string option" | Line sock string | Close sock | Ended sock bool

fun step :: "IRCServer \<Rightarrow> event \<Rightarrow> IRCServer" where
  "step \<sigma> (Connect s remoteAddress) = connect \<sigma> s remoteAddress"
| "step \<sigma> (Line s message) = handleMessage \<sigma> s message"
| "step \<sigma> (Close s) = removeClient \<sigma> s"
| "step \<sigma> (Ended s gone) = socket_ended \<sigma> s gone"

inductive reachable :: "IRCServer \<Rightarrow> bool" where
  reach_init: "reachable init"
| reach_connect: "reachable \<sigma> \<Longrightarrow> heap \<sigma> s = None \<Longrightarrow> reachable (connect \<sigma> s remoteAddress)"
| reach_line: "reachable \<sigma> \<Longrightarrow> heap \<sigma> s \<noteq> None \<Longrightarrow> reachable (handleMessage \<sigma> s message)"
| reach_close: "reachable \<sigma> \<Longrightarrow> heap \<sigma> s \<noteq> None \<Longrightarrow> reachable (removeClient \<sigma> s)"
| reach_ended: "reachable \<sigma> \<Longrightarrow> heap \<sigma> s \<noteq> None \<Longrightarrow> reachable (socket_ended \<sigma> s gone)"

section \<open>Runs\<close>

text \<open>The state after a list of events, and the test that each event was possible.\<close>

definition known :: "IRCServer \<Rightarrow> sock \<Rightarrow> bool" where
  "known \<sigma> s = (case heap \<sigma> s of None \<Rightarrow> False | Some _ \<Rightarrow> True)"

fun possible :: "IRCServer \<Rightarrow> event \<Rightarrow> bool" where
  "possible \<sigma> (Connect s remoteAddress) = (\<not> known \<sigma> s)"
| "possible \<sigma> (Line s message) = known \<sigma> s"
| "possible \<sigma> (Close s) = known \<sigma> s"
| "possible \<sigma> (Ended s gone) = known \<sigma> s"

fun admissible :: "IRCServer \<Rightarrow> event list \<Rightarrow> bool" where
  "admissible \<sigma> [] = True"
| "admissible \<sigma> (e # es) = (possible \<sigma> e \<and> admissible (step \<sigma> e) es)"

definition run :: "event list \<Rightarrow> IRCServer" where
  "run es = foldl step init es"

section \<open>Vocabulary of the properties\<close>

text \<open>The part of the state that is not output: both maps and every client object.\<close>

definition core :: "IRCServer \<Rightarrow> sock list \<times> (string \<times> IRCChannel) list \<times> (sock \<Rightarrow> IRCClient option)" where
  "core \<sigma> = (srv_clients \<sigma>, srv_channels \<sigma>, heap \<sigma>)"

text \<open>
  The writes that one line addressed to a list of clients puts on the wire: one copy, with
  its terminator, for each of them whose socket is writable.
\<close>

definition written :: "IRCServer \<Rightarrow> sock list \<Rightarrow> string \<Rightarrow> (sock \<times> string) list" where
  "written \<sigma> recipients line = map (\<lambda>t. (t, line @ crlf)) (filter (is_writable \<sigma>) recipients)"

text \<open>The member list of a channel name; a name the directory does not have has no member.\<close>

definition members :: "IRCServer \<Rightarrow> string \<Rightarrow> sock list" where
  "members \<sigma> channelName =
     (case map_of (srv_channels \<sigma>) channelName of None \<Rightarrow> [] | Some channel \<Rightarrow> clients channel)"

text \<open>The four welcome lines of a client, as \<^verbatim>\<open>checkRegistration\<close> words them.\<close>

definition welcome_lines :: "IRCClient \<Rightarrow> string list" where
  "welcome_lines c =
     [reply_line (nickname c) ''001''
        ('':Welcome to the Comic Chat IRC Network '' @ tmpl (nickname c) @ ''!''
         @ tmpl (username c) @ ''@'' @ hostname c),
      reply_line (nickname c) ''002''
        ('':Your host is '' @ serverName @ '', running version '' @ version),
      reply_line (nickname c) ''003''
        '':This server was created for Microsoft Comic Chat compatibility'',
      reply_line (nickname c) ''004'' (serverName @ '' '' @ version @ '' - -'')]"

text \<open>A member of a channel that \<^verbatim>\<open>handleWho\<close> lists: its object has a non-empty nickname.\<close>

definition has_nick :: "IRCServer \<Rightarrow> sock \<Rightarrow> bool" where
  "has_nick \<sigma> m = (case heap \<sigma> m of None \<Rightarrow> False | Some mc \<Rightarrow> truthy (nickname mc))"

text \<open>The 352 line of \<^verbatim>\<open>handleWho\<close> for one member, as sent to a requester with nickname \<open>nick\<close>.\<close>

definition who_line :: "IRCServer \<Rightarrow> string option \<Rightarrow> string \<Rightarrow> sock \<Rightarrow> string" where
  "who_line \<sigma> nick target m =
     (case heap \<sigma> m of
        None \<Rightarrow> []
      | Some mc \<Rightarrow>
          reply_line nick ''352''
            (target @ '' '' @ tmpl (username mc) @ '' '' @ hostname mc @ '' '' @ serverName
             @ '' '' @ tmpl (nickname mc) @ '' H :0 '' @ tmpl (realname mc)))"

text \<open>
  The invariant of the two maps and the client objects, on the lookup function of the
  channel directory: every channel carries its key as its name and has members, without
  repetition, each a registered client that lists the channel; every client of the
  registry is a member of every channel it lists; nothing is listed twice.
\<close>

definition wfm :: "sock list \<Rightarrow> (string \<Rightarrow> IRCChannel option) \<Rightarrow> (sock \<Rightarrow> IRCClient option) \<Rightarrow> bool" where
  "wfm cl M hp \<longleftrightarrow>
     (\<forall>n chan. M n = Some chan \<longrightarrow>
        name chan = n \<and> clients chan \<noteq> [] \<and> distinct (clients chan) \<and>
        (\<forall>m \<in> set (clients chan). \<exists>c. hp m = Some c \<and> registered c \<and> n \<in> set (channels c))) \<and>
     (\<forall>s \<in> set cl. \<exists>c. hp s = Some c \<and>
        (\<forall>n \<in> set (channels c). \<exists>chan. M n = Some chan \<and> s \<in> set (clients chan))) \<and>
     distinct cl \<and>
     (\<forall>s c. hp s = Some c \<longrightarrow> distinct (channels c))"

definition wf :: "IRCServer \<Rightarrow> bool" where
  "wf \<sigma> \<longleftrightarrow>
     distinct (map fst (srv_channels \<sigma>)) \<and>
     wfm (srv_clients \<sigma>) (map_of (srv_channels \<sigma>)) (heap \<sigma>)"

section \<open>Example runs\<close>

text \<open>
  Two clients register as alice and bob and join \<^verbatim>\<open>#test\<close>, in this order: the scenario of the
  specification, up to bob's join.
\<close>

definition room_events :: "event list" where
  "room_events =
     [Connect 0 None, Line 0 ''NICK alice'', Line 0 ''USER alice 0 * :Alice A'', Line 0 ''JOIN #test'',
      Connect 1 (Some ''10.0.0.2''), Line 1 ''NICK bob'', Line 1 ''USER bob 0 * :Bob B'',
      Line 1 ''JOIN #test'']"

text \<open>
  The same run, after which alice sends \<^verbatim>\<open>NICK\<close> followed by two spaces and a word: the second
  token of the line is the empty string, and it becomes her nickname.
\<close>

definition blank_nick_events :: "event list" where
  "blank_nick_events = room_events @ [Line 0 ''NICK  x'']"

text \<open>
  The first run again, after which one chunk of alice's socket holds a QUIT and a JOIN: the
  data listener hands both lines to the dispatcher, the second one after \<^verbatim>\<open>removeClient\<close>.
\<close>

definition late_join_events :: "event list" where
  "late_join_events = room_events @ [Line 0 ''QUIT :bye'', Line 0 ''JOIN #zombie'']"

text \<open>A client registers as alice and joins nothing.\<close>

definition lone_events :: "event list" where
  "lone_events = [Connect 0 None, Line 0 ''NICK alice'', Line 0 ''USER alice 0 * :Alice A'']"

section \<open>Basic facts about output\<close>

lemma split_sp_nonempty: "split_sp m \<noteq> []"
  by (induction m) (auto split: list.splits)

lemma is_writable_cong: "heap \<sigma>' = heap \<sigma> \<Longrightarrow> is_writable \<sigma>' = is_writable \<sigma>"
  by (auto simp: is_writable_def fun_eq_iff)

lemma written_cong: "heap \<sigma>' = heap \<sigma> \<Longrightarrow> written \<sigma>' = written \<sigma>"
proof -
  assume "heap \<sigma>' = heap \<sigma>"
  then have "is_writable \<sigma>' = is_writable \<sigma>" by (rule is_writable_cong)
  then show ?thesis by (intro ext) (simp add: written_def)
qed

lemma written_Nil [simp]: "written \<sigma> [] line = []"
  by (simp add: written_def)

lemma written_Cons:
  "written \<sigma> (t # ts) line = (if is_writable \<sigma> t then [(t, line @ crlf)] else []) @ written \<sigma> ts line"
  by (simp add: written_def)

lemma core_send [simp]: "core (send \<sigma> s m) = core \<sigma>"
  by (simp add: send_def core_def)

lemma out_send: "out (send \<sigma> s m) = out \<sigma> @ written \<sigma> [s] m"
  by (simp add: send_def written_def)

lemma core_sendReply [simp]: "core (sendReply \<sigma> s code m) = core \<sigma>"
  by (simp add: sendReply_def split: option.splits)

lemma out_sendReply:
  "heap \<sigma> s = Some c \<Longrightarrow>
   out (sendReply \<sigma> s code m) = out \<sigma> @ written \<sigma> [s] (reply_line (nickname c) code m)"
  by (simp add: sendReply_def out_send)

lemma core_heap: "core \<sigma>' = core \<sigma> \<Longrightarrow> heap \<sigma>' = heap \<sigma>"
  by (simp add: core_def)

lemma core_channels: "core \<sigma>' = core \<sigma> \<Longrightarrow> srv_channels \<sigma>' = srv_channels \<sigma>"
  by (simp add: core_def)

lemma core_clients: "core \<sigma>' = core \<sigma> \<Longrightarrow> srv_clients \<sigma>' = srv_clients \<sigma>"
  by (simp add: core_def)

lemma broadcast_fold:
  "core (fold (\<lambda>m \<sigma>'. if Some m \<noteq> ex \<and> is_writable \<sigma>' m then send \<sigma>' m line else \<sigma>') ts \<sigma>) = core \<sigma> \<and>
   out (fold (\<lambda>m \<sigma>'. if Some m \<noteq> ex \<and> is_writable \<sigma>' m then send \<sigma>' m line else \<sigma>') ts \<sigma>)
     = out \<sigma> @ written \<sigma> (filter (\<lambda>t. Some t \<noteq> ex) ts) line"
proof (induction ts arbitrary: \<sigma>)
  case Nil
  then show ?case by simp
next
  case (Cons t ts)
  let ?\<sigma>1 = "if Some t \<noteq> ex \<and> is_writable \<sigma> t then send \<sigma> t line else \<sigma>"
  have c1: "core ?\<sigma>1 = core \<sigma>" by simp
  have w1: "written ?\<sigma>1 = written \<sigma>" by (rule written_cong) (rule core_heap [OF c1])
  have o1: "out ?\<sigma>1 = out \<sigma> @ written \<sigma> (filter (\<lambda>t. Some t \<noteq> ex) [t]) line"
    by (simp add: out_send written_def)
  show ?case
    using Cons.IH [of ?\<sigma>1] c1 w1 o1 by (simp add: written_def)
qed

lemma core_broadcastToChannel [simp]: "core (broadcastToChannel \<sigma> ch line ex) = core \<sigma>"
  unfolding broadcastToChannel_def using broadcast_fold by blast

lemma out_broadcastToChannel:
  "out (broadcastToChannel \<sigma> ch line ex)
     = out \<sigma> @ written \<sigma> (filter (\<lambda>t. Some t \<noteq> ex) (clients ch)) line"
  unfolding broadcastToChannel_def using broadcast_fold by blast

lemma broadcasts_fold:
  "core (fold (\<lambda>channelName \<sigma>'.
             case map_of (srv_channels \<sigma>') channelName of
               None \<Rightarrow> \<sigma>'
             | Some channel \<Rightarrow> broadcastToChannel \<sigma>' channel line (Some s)) ns \<sigma>) = core \<sigma> \<and>
   out (fold (\<lambda>channelName \<sigma>'.
             case map_of (srv_channels \<sigma>') channelName of
               None \<Rightarrow> \<sigma>'
             | Some channel \<Rightarrow> broadcastToChannel \<sigma>' channel line (Some s)) ns \<sigma>)
     = out \<sigma> @ concat (map (\<lambda>n. written \<sigma> (filter (\<lambda>t. t \<noteq> s) (members \<sigma> n)) line) ns)"
proof (induction ns arbitrary: \<sigma>)
  case Nil
  then show ?case by simp
next
  case (Cons n ns)
  let ?\<sigma>1 = "case map_of (srv_channels \<sigma>) n of
               None \<Rightarrow> \<sigma>
             | Some channel \<Rightarrow> broadcastToChannel \<sigma> channel line (Some s)"
  have c1: "core ?\<sigma>1 = core \<sigma>" by (simp split: option.splits)
  have w1: "written ?\<sigma>1 = written \<sigma>" by (rule written_cong) (rule core_heap [OF c1])
  have m1: "members ?\<sigma>1 = members \<sigma>"
    using core_channels [OF c1] by (simp add: members_def fun_eq_iff)
  have o1: "out ?\<sigma>1 = out \<sigma> @ written \<sigma> (filter (\<lambda>t. t \<noteq> s) (members \<sigma> n)) line"
    by (simp add: members_def out_broadcastToChannel split: option.splits)
  show ?case
    using Cons.IH [of ?\<sigma>1] c1 w1 m1 o1 by simp
qed

lemma core_broadcastToChannels [simp]: "core (broadcastToChannels \<sigma> s ns line) = core \<sigma>"
  unfolding broadcastToChannels_def using broadcasts_fold by blast

lemma out_broadcastToChannels:
  "out (broadcastToChannels \<sigma> s ns line)
     = out \<sigma> @ concat (map (\<lambda>n. written \<sigma> (filter (\<lambda>t. t \<noteq> s) (members \<sigma> n)) line) ns)"
  unfolding broadcastToChannels_def using broadcasts_fold by blast

section \<open>The invariant under each kind of update\<close>

lemma distinct_set_add: "distinct xs \<Longrightarrow> distinct (set_add x xs)"
  by (simp add: set_add_def)

lemma set_set_add [simp]: "set (set_add x xs) = insert x (set xs)"
  by (auto simp: set_add_def)

lemma wfmI:
  assumes "\<And>n chan. M n = Some chan \<Longrightarrow> name chan = n \<and> clients chan \<noteq> [] \<and> distinct (clients chan)"
    and "\<And>n chan m. M n = Some chan \<Longrightarrow> m \<in> set (clients chan)
           \<Longrightarrow> \<exists>c. hp m = Some c \<and> registered c \<and> n \<in> set (channels c)"
    and "\<And>s. s \<in> set cl \<Longrightarrow> \<exists>c. hp s = Some c \<and>
           (\<forall>n \<in> set (channels c). \<exists>chan. M n = Some chan \<and> s \<in> set (clients chan))"
    and "distinct cl"
    and "\<And>s c. hp s = Some c \<Longrightarrow> distinct (channels c)"
  shows "wfm cl M hp"
  unfolding wfm_def using assms by blast

lemma wfm_chan:
  "wfm cl M hp \<Longrightarrow> M n = Some chan \<Longrightarrow> name chan = n \<and> clients chan \<noteq> [] \<and> distinct (clients chan)"
  unfolding wfm_def by blast

lemma wfm_member:
  "wfm cl M hp \<Longrightarrow> M n = Some chan \<Longrightarrow> m \<in> set (clients chan)
     \<Longrightarrow> \<exists>c. hp m = Some c \<and> registered c \<and> n \<in> set (channels c)"
  unfolding wfm_def by blast

lemma wfm_client:
  "wfm cl M hp \<Longrightarrow> s \<in> set cl \<Longrightarrow> \<exists>c. hp s = Some c \<and>
           (\<forall>n \<in> set (channels c). \<exists>chan. M n = Some chan \<and> s \<in> set (clients chan))"
  unfolding wfm_def by blast

lemma wfm_distinct_clients: "wfm cl M hp \<Longrightarrow> distinct cl"
  unfolding wfm_def by blast

lemma wfm_distinct_channels: "wfm cl M hp \<Longrightarrow> hp s = Some c \<Longrightarrow> distinct (channels c)"
  unfolding wfm_def by blast

lemma wfm_heap_upd:
  assumes w: "wfm cl M hp" and s: "hp s = Some c" and ch: "channels c' = channels c"
    and r: "registered c \<longrightarrow> registered c'"
  shows "wfm cl M (hp(s \<mapsto> c'))"
proof (rule wfmI)
  fix n chan assume "M n = Some chan"
  then show "name chan = n \<and> clients chan \<noteq> [] \<and> distinct (clients chan)"
    using wfm_chan [OF w] by blast
next
  fix n chan m assume "M n = Some chan" "m \<in> set (clients chan)"
  from wfm_member [OF w this] s ch r
  show "\<exists>c. (hp(s \<mapsto> c')) m = Some c \<and> registered c \<and> n \<in> set (channels c)"
    by auto
next
  fix t assume "t \<in> set cl"
  from wfm_client [OF w this] s ch
  show "\<exists>c. (hp(s \<mapsto> c')) t = Some c \<and>
           (\<forall>n \<in> set (channels c). \<exists>chan. M n = Some chan \<and> t \<in> set (clients chan))"
    by auto
next
  show "distinct cl" by (rule wfm_distinct_clients [OF w])
next
  fix t c0 assume "(hp(s \<mapsto> c')) t = Some c0"
  then show "distinct (channels c0)"
    using wfm_distinct_channels [OF w] s ch by (auto split: if_splits)
qed

lemma wfm_topic:
  assumes w: "wfm cl M hp" and n: "M n = Some chan"
  shows "wfm cl (M(n \<mapsto> chan\<lparr>topic := t\<rparr>)) hp"
proof (rule wfmI)
  fix k ch assume "(M(n \<mapsto> chan\<lparr>topic := t\<rparr>)) k = Some ch"
  then show "name ch = k \<and> clients ch \<noteq> [] \<and> distinct (clients ch)"
    using wfm_chan [OF w] n by (auto split: if_splits)
next
  fix k ch m assume "(M(n \<mapsto> chan\<lparr>topic := t\<rparr>)) k = Some ch" "m \<in> set (clients ch)"
  then show "\<exists>c. hp m = Some c \<and> registered c \<and> k \<in> set (channels c)"
    using wfm_member [OF w] n by (auto split: if_splits)
next
  fix s assume "s \<in> set cl"
  from wfm_client [OF w this] n
  show "\<exists>c. hp s = Some c \<and>
           (\<forall>k \<in> set (channels c). \<exists>ch. (M(n \<mapsto> chan\<lparr>topic := t\<rparr>)) k = Some ch \<and> s \<in> set (clients ch))"
    by fastforce
next
  show "distinct cl" by (rule wfm_distinct_clients [OF w])
next
  fix s c assume "hp s = Some c"
  then show "distinct (channels c)" by (rule wfm_distinct_channels [OF w])
qed

lemma wfm_connect:
  assumes w: "wfm cl M hp" and s: "hp s = None" and ch: "channels c0 = []"
  shows "wfm (cl @ [s]) M (hp(s \<mapsto> c0))"
proof (rule wfmI)
  fix n chan assume "M n = Some chan"
  then show "name chan = n \<and> clients chan \<noteq> [] \<and> distinct (clients chan)"
    using wfm_chan [OF w] by blast
next
  fix n chan m assume "M n = Some chan" "m \<in> set (clients chan)"
  from wfm_member [OF w this] s
  show "\<exists>c. (hp(s \<mapsto> c0)) m = Some c \<and> registered c \<and> n \<in> set (channels c)"
    by auto
next
  fix t assume "t \<in> set (cl @ [s])"
  then consider "t \<in> set cl" | "t = s" by auto
  then show "\<exists>c. (hp(s \<mapsto> c0)) t = Some c \<and>
           (\<forall>n \<in> set (channels c). \<exists>chan. M n = Some chan \<and> t \<in> set (clients chan))"
  proof cases
    case 1
    from wfm_client [OF w this] s show ?thesis by auto
  next
    case 2
    then show ?thesis using ch by simp
  qed
next
  have "s \<notin> set cl" using wfm_client [OF w, of s] s by auto
  then show "distinct (cl @ [s])" using wfm_distinct_clients [OF w] by simp
next
  fix t c assume "(hp(s \<mapsto> c0)) t = Some c"
  then show "distinct (channels c)"
    using wfm_distinct_channels [OF w] ch by (auto split: if_splits)
qed

lemma wfm_unregister:
  assumes w: "wfm cl M hp"
  shows "wfm (removeAll s cl) M hp"
proof (rule wfmI)
  fix n chan assume "M n = Some chan"
  then show "name chan = n \<and> clients chan \<noteq> [] \<and> distinct (clients chan)"
    using wfm_chan [OF w] by blast
next
  fix n chan m assume "M n = Some chan" "m \<in> set (clients chan)"
  from wfm_member [OF w this]
  show "\<exists>c. hp m = Some c \<and> registered c \<and> n \<in> set (channels c)" .
next
  fix t assume "t \<in> set (removeAll s cl)"
  then have "t \<in> set cl" by auto
  from wfm_client [OF w this]
  show "\<exists>c. hp t = Some c \<and>
           (\<forall>n \<in> set (channels c). \<exists>chan. M n = Some chan \<and> t \<in> set (clients chan))" .
next
  show "distinct (removeAll s cl)" using wfm_distinct_clients [OF w] by (simp add: distinct_removeAll)
next
  fix t c assume "hp t = Some c"
  then show "distinct (channels c)" by (rule wfm_distinct_channels [OF w])
qed

lemma wfm_join:
  assumes w: "wfm cl M hp" and s: "hp s = Some c" and r: "registered c"
    and n: "M n = Some chan \<and> s \<notin> set (clients chan) \<or> M n = None \<and> chan = \<lparr>name = n, clients = [], topic = None\<rparr>"
  shows "wfm cl (M(n \<mapsto> chan\<lparr>clients := set_add s (clients chan)\<rparr>))
           (hp(s \<mapsto> c\<lparr>channels := set_add n (channels c)\<rparr>))"
proof (rule wfmI)
  fix k ch assume k: "(M(n \<mapsto> chan\<lparr>clients := set_add s (clients chan)\<rparr>)) k = Some ch"
  show "name ch = k \<and> clients ch \<noteq> [] \<and> distinct (clients ch)"
  proof (cases "k = n")
    case True
    then have ch: "ch = chan\<lparr>clients := set_add s (clients chan)\<rparr>" using k by simp
    from n show ?thesis
    proof
      assume "M n = Some chan \<and> s \<notin> set (clients chan)"
      then show ?thesis using wfm_chan [OF w, of n chan] ch True by (simp add: set_add_def)
    next
      assume "M n = None \<and> chan = \<lparr>name = n, clients = [], topic = None\<rparr>"
      then show ?thesis using ch True by (simp add: set_add_def)
    qed
  next
    case False
    then show ?thesis using k wfm_chan [OF w, of k ch] by simp
  qed
next
  fix k ch m assume k: "(M(n \<mapsto> chan\<lparr>clients := set_add s (clients chan)\<rparr>)) k = Some ch"
    and m: "m \<in> set (clients ch)"
  show "\<exists>c'. (hp(s \<mapsto> c\<lparr>channels := set_add n (channels c)\<rparr>)) m = Some c' \<and> registered c' \<and> k \<in> set (channels c')"
  proof (cases "k = n")
    case True
    then have ch: "ch = chan\<lparr>clients := set_add s (clients chan)\<rparr>" using k by simp
    show ?thesis
    proof (cases "m = s")
      case True
      then show ?thesis using r \<open>k = n\<close> by simp
    next
      case False
      then have "m \<in> set (clients chan)" using m ch by simp
      moreover have "M n = Some chan" using n calculation by auto
      ultimately show ?thesis using wfm_member [OF w, of n chan m] False \<open>k = n\<close> by simp
    qed
  next
    case False
    then have "M k = Some ch" using k by simp
    from wfm_member [OF w this m] s r show ?thesis by auto
  qed
next
  fix t assume t: "t \<in> set cl"
  from wfm_client [OF w this] obtain tc where tc: "hp t = Some tc"
    and mem: "\<forall>k \<in> set (channels tc). \<exists>ch. M k = Some ch \<and> t \<in> set (clients ch)" by blast
  have keep: "\<exists>ch. (M(n \<mapsto> chan\<lparr>clients := set_add s (clients chan)\<rparr>)) k = Some ch \<and> t \<in> set (clients ch)"
    if "k \<in> set (channels tc)" for k
  proof (cases "k = n")
    case True
    from mem that obtain ch where "M k = Some ch" "t \<in> set (clients ch)" by blast
    then show ?thesis using n True by auto
  next
    case False
    then show ?thesis using mem that by simp
  qed
  show "\<exists>c'. (hp(s \<mapsto> c\<lparr>channels := set_add n (channels c)\<rparr>)) t = Some c' \<and>
           (\<forall>k \<in> set (channels c'). \<exists>ch. (M(n \<mapsto> chan\<lparr>clients := set_add s (clients chan)\<rparr>)) k = Some ch \<and> t \<in> set (clients ch))"
  proof (cases "t = s")
    case True
    then have "tc = c" using tc s by simp
    then show ?thesis using True keep by auto
  next
    case False
    then show ?thesis using tc keep by simp
  qed
next
  show "distinct cl" by (rule wfm_distinct_clients [OF w])
next
  fix t c' assume "(hp(s \<mapsto> c\<lparr>channels := set_add n (channels c)\<rparr>)) t = Some c'"
  then show "distinct (channels c')"
    using wfm_distinct_channels [OF w] s by (auto split: if_splits simp: distinct_set_add)
qed

text \<open>What is left of a channel when a client leaves it: nothing if it was the last member.\<close>

lemma wfm_leave:
  assumes w: "wfm cl M hp" and s: "hp s = Some c" and n: "M n = Some chan"
  shows "wfm cl (M(n := if removeAll s (clients chan) = [] then None
                        else Some (chan\<lparr>clients := removeAll s (clients chan)\<rparr>)))
           (hp(s \<mapsto> c\<lparr>channels := removeAll n (channels c)\<rparr>))"
    (is "wfm cl ?M ?hp")
proof (rule wfmI)
  fix k ch assume k: "?M k = Some ch"
  show "name ch = k \<and> clients ch \<noteq> [] \<and> distinct (clients ch)"
  proof (cases "k = n")
    case True
    then show ?thesis using k wfm_chan [OF w n] by (auto split: if_splits simp: distinct_removeAll)
  next
    case False
    then show ?thesis using k wfm_chan [OF w, of k ch] by simp
  qed
next
  fix k ch m assume k: "?M k = Some ch" and m: "m \<in> set (clients ch)"
  show "\<exists>c'. ?hp m = Some c' \<and> registered c' \<and> k \<in> set (channels c')"
  proof (cases "k = n")
    case True
    then have "m \<in> set (clients chan)" "m \<noteq> s" using k m by (auto split: if_splits)
    then show ?thesis using wfm_member [OF w n] True by simp
  next
    case False
    then have "M k = Some ch" using k by simp
    from wfm_member [OF w this m] s False show ?thesis by auto
  qed
next
  fix t assume t: "t \<in> set cl"
  from wfm_client [OF w this] obtain tc where tc: "hp t = Some tc"
    and mem: "\<forall>k \<in> set (channels tc). \<exists>ch. M k = Some ch \<and> t \<in> set (clients ch)" by blast
  have keep: "\<exists>ch. ?M k = Some ch \<and> t \<in> set (clients ch)"
    if "k \<in> set (channels tc)" and "k \<noteq> n \<or> t \<noteq> s" for k
  proof (cases "k = n")
    case True
    then have ts: "t \<noteq> s" using that by simp
    from mem that True have tin: "t \<in> set (clients chan)" using n by auto
    have "removeAll s (clients chan) \<noteq> []"
    proof
      assume e: "removeAll s (clients chan) = []"
      have "t \<in> set (removeAll s (clients chan))" using tin ts by simp
      then show False unfolding e by simp
    qed
    then show ?thesis using True tin ts by auto
  next
    case False
    then show ?thesis using mem that by simp
  qed
  show "\<exists>c'. ?hp t = Some c' \<and> (\<forall>k \<in> set (channels c'). \<exists>ch. ?M k = Some ch \<and> t \<in> set (clients ch))"
  proof (cases "t = s")
    case True
    then have "tc = c" using tc s by simp
    then show ?thesis using True keep by auto
  next
    case False
    then show ?thesis using tc keep by simp
  qed
next
  show "distinct cl" by (rule wfm_distinct_clients [OF w])
next
  fix t c' assume "?hp t = Some c'"
  then show "distinct (channels c')"
    using wfm_distinct_channels [OF w] s by (auto split: if_splits simp: distinct_removeAll)
qed

lemma wfm_detach:
  assumes w: "wfm cl M hp" and s: "s \<notin> set cl" and n: "M n = Some chan"
  shows "wfm cl (M(n := if removeAll s (clients chan) = [] then None
                        else Some (chan\<lparr>clients := removeAll s (clients chan)\<rparr>))) hp"
    (is "wfm cl ?M hp")
proof (rule wfmI)
  fix k ch assume k: "?M k = Some ch"
  show "name ch = k \<and> clients ch \<noteq> [] \<and> distinct (clients ch)"
  proof (cases "k = n")
    case True
    then show ?thesis using k wfm_chan [OF w n] by (auto split: if_splits simp: distinct_removeAll)
  next
    case False
    then show ?thesis using k wfm_chan [OF w, of k ch] by simp
  qed
next
  fix k ch m assume k: "?M k = Some ch" and m: "m \<in> set (clients ch)"
  show "\<exists>c'. hp m = Some c' \<and> registered c' \<and> k \<in> set (channels c')"
  proof (cases "k = n")
    case True
    then have "m \<in> set (clients chan)" using k m by (auto split: if_splits)
    then show ?thesis using wfm_member [OF w n] True by simp
  next
    case False
    then have "M k = Some ch" using k by simp
    from wfm_member [OF w this m] show ?thesis .
  qed
next
  fix t assume t: "t \<in> set cl"
  then have ts: "t \<noteq> s" using s by auto
  from wfm_client [OF w t] obtain tc where tc: "hp t = Some tc"
    and mem: "\<forall>k \<in> set (channels tc). \<exists>ch. M k = Some ch \<and> t \<in> set (clients ch)" by blast
  have keep: "\<exists>ch. ?M k = Some ch \<and> t \<in> set (clients ch)" if "k \<in> set (channels tc)" for k
  proof (cases "k = n")
    case True
    from mem that True have tin: "t \<in> set (clients chan)" using n by auto
    have "removeAll s (clients chan) \<noteq> []"
    proof
      assume e: "removeAll s (clients chan) = []"
      have "t \<in> set (removeAll s (clients chan))" using tin ts by simp
      then show False unfolding e by simp
    qed
    then show ?thesis using True tin ts by auto
  next
    case False
    then show ?thesis using mem that by simp
  qed
  show "\<exists>c'. hp t = Some c' \<and> (\<forall>k \<in> set (channels c'). \<exists>ch. ?M k = Some ch \<and> t \<in> set (clients ch))"
    using tc keep by simp
next
  show "distinct cl" by (rule wfm_distinct_clients [OF w])
next
  fix t c' assume "hp t = Some c'"
  then show "distinct (channels c')" by (rule wfm_distinct_channels [OF w])
qed

section \<open>The channel directory as a list\<close>

lemma map_of_leave_channel:
  "map_of (leave_channel s n chan chans) =
     (map_of chans)(n := if removeAll s (clients chan) = [] then None
                         else Some (chan\<lparr>clients := removeAll s (clients chan)\<rparr>))"
  by (simp add: leave_channel_def Let_def update_conv' delete_conv')

lemma distinct_leave_channel:
  "distinct (map fst chans) \<Longrightarrow> distinct (map fst (leave_channel s n chan chans))"
  by (simp add: leave_channel_def Let_def distinct_update distinct_delete)

lemma distinct_detach:
  "distinct (map fst chans) \<Longrightarrow> distinct (map fst (detach s n chans))"
  by (simp add: detach_def distinct_leave_channel split: option.splits)

lemma wfm_detach_list:
  assumes "wfm cl (map_of chans) hp" and "s \<notin> set cl"
  shows "wfm cl (map_of (detach s n chans)) hp"
proof (cases "map_of chans n")
  case None
  then show ?thesis using assms by (simp add: detach_def)
next
  case (Some chan)
  then show ?thesis
    using wfm_detach [OF assms Some] by (simp add: detach_def map_of_leave_channel)
qed

lemma fold_detach_wf:
  "distinct (map fst chans) \<Longrightarrow> wfm cl (map_of chans) hp \<Longrightarrow> s \<notin> set cl \<Longrightarrow>
   distinct (map fst (fold (detach s) ns chans)) \<and> wfm cl (map_of (fold (detach s) ns chans)) hp"
proof (induction ns arbitrary: chans)
  case Nil
  then show ?case by simp
next
  case (Cons n ns)
  have "distinct (map fst (detach s n chans))" using Cons.prems(1) by (rule distinct_detach)
  moreover have "wfm cl (map_of (detach s n chans)) hp"
    using Cons.prems(2,3) by (rule wfm_detach_list)
  ultimately show ?case using Cons.IH [of "detach s n chans"] Cons.prems(3) by simp
qed

section \<open>The invariant on states\<close>

lemma wf_core: "core \<sigma>' = core \<sigma> \<Longrightarrow> wf \<sigma>' = wf \<sigma>"
  by (simp add: wf_def core_def)

lemma wf_init: "wf init"
  by (simp add: wf_def wfm_def init_def)

lemma wf_connect:
  assumes "wf \<sigma>" and "heap \<sigma> s = None"
  shows "wf (connect \<sigma> s remoteAddress)"
  using assms wfm_connect [of "srv_clients \<sigma>" "map_of (srv_channels \<sigma>)" "heap \<sigma>" s]
  by (simp add: wf_def connect_def)

lemma wf_removeClient:
  assumes w: "wf \<sigma>"
  shows "wf (removeClient \<sigma> s)"
proof (cases "heap \<sigma> s")
  case None
  then show ?thesis using w by (simp add: removeClient_def)
next
  case (Some c)
  let ?cl = "removeAll s (srv_clients \<sigma>)"
  let ?chs = "fold (detach s) (channels c) (srv_channels \<sigma>)"
  let ?c' = "c\<lparr>socket := (if \<not> destroyed (socket c) then destroy (socket c) else socket c)\<rparr>"
  have d: "distinct (map fst (srv_channels \<sigma>))" and m: "wfm (srv_clients \<sigma>) (map_of (srv_channels \<sigma>)) (heap \<sigma>)"
    using w by (simp_all add: wf_def)
  have "wfm ?cl (map_of (srv_channels \<sigma>)) (heap \<sigma>)" using m by (rule wfm_unregister)
  then have f: "distinct (map fst ?chs) \<and> wfm ?cl (map_of ?chs) (heap \<sigma>)"
    using fold_detach_wf [OF d, of ?cl "heap \<sigma>" s "channels c"] by simp
  then have "wfm ?cl (map_of ?chs) ((heap \<sigma>)(s \<mapsto> ?c'))"
    using wfm_heap_upd [of ?cl "map_of ?chs" "heap \<sigma>" s c ?c'] Some by simp
  then show ?thesis using f Some by (simp add: removeClient_def wf_def)
qed

section \<open>What each output primitive leaves alone\<close>

lemma fields_send [simp]:
  "srv_clients (send \<sigma> s m) = srv_clients \<sigma>"
  "srv_channels (send \<sigma> s m) = srv_channels \<sigma>"
  "heap (send \<sigma> s m) = heap \<sigma>"
  by (simp_all add: send_def)

lemma fields_sendReply [simp]:
  "srv_clients (sendReply \<sigma> s code m) = srv_clients \<sigma>"
  "srv_channels (sendReply \<sigma> s code m) = srv_channels \<sigma>"
  "heap (sendReply \<sigma> s code m) = heap \<sigma>"
  by (simp_all add: sendReply_def split: option.splits)

lemma fields_broadcastToChannel [simp]:
  "srv_clients (broadcastToChannel \<sigma> ch line ex) = srv_clients \<sigma>"
  "srv_channels (broadcastToChannel \<sigma> ch line ex) = srv_channels \<sigma>"
  "heap (broadcastToChannel \<sigma> ch line ex) = heap \<sigma>"
  using core_broadcastToChannel [of \<sigma> ch line ex] by (simp_all add: core_def)

lemma fields_broadcastToChannels [simp]:
  "srv_clients (broadcastToChannels \<sigma> s ns line) = srv_clients \<sigma>"
  "srv_channels (broadcastToChannels \<sigma> s ns line) = srv_channels \<sigma>"
  "heap (broadcastToChannels \<sigma> s ns line) = heap \<sigma>"
  using core_broadcastToChannels [of \<sigma> s ns line] by (simp_all add: core_def)

lemma written_send [simp]: "written (send \<sigma> s m) = written \<sigma>"
  by (rule written_cong) simp

lemma written_sendReply [simp]: "written (sendReply \<sigma> s code m) = written \<sigma>"
  by (rule written_cong) simp

lemma written_broadcastToChannel [simp]: "written (broadcastToChannel \<sigma> ch line ex) = written \<sigma>"
  by (rule written_cong) simp

lemma written_broadcastToChannels [simp]: "written (broadcastToChannels \<sigma> s ns line) = written \<sigma>"
  by (rule written_cong) simp

lemma members_cong: "srv_channels \<sigma>' = srv_channels \<sigma> \<Longrightarrow> members \<sigma>' = members \<sigma>"
  by (intro ext) (simp add: members_def)

text \<open>An update of a client object that keeps its socket changes no decision to write.\<close>

lemma is_writable_heap_upd:
  "heap \<sigma> s = Some c \<Longrightarrow> socket c' = socket c \<Longrightarrow> heap \<sigma>' = (heap \<sigma>)(s \<mapsto> c')
   \<Longrightarrow> is_writable \<sigma>' = is_writable \<sigma>"
  by (intro ext) (simp add: is_writable_def)

lemma written_heap_upd:
  assumes "heap \<sigma> s = Some c" and "socket c' = socket c" and "heap \<sigma>' = (heap \<sigma>)(s \<mapsto> c')"
  shows "written \<sigma>' = written \<sigma>"
proof -
  have "is_writable \<sigma>' = is_writable \<sigma>" using assms by (rule is_writable_heap_upd)
  then show ?thesis by (intro ext) (simp add: written_def)
qed

section \<open>Registration\<close>

lemma checkRegistration_noop:
  "heap \<sigma> s = Some c \<Longrightarrow> registered c \<or> \<not> truthy (nickname c) \<or> \<not> truthy (username c)
   \<Longrightarrow> checkRegistration \<sigma> s = \<sigma>"
  by (auto simp: checkRegistration_def)

lemma checkRegistration_promote:
  assumes s: "heap \<sigma> s = Some c" and r: "\<not> registered c"
    and n: "truthy (nickname c)" and u: "truthy (username c)"
  shows "srv_clients (checkRegistration \<sigma> s) = srv_clients \<sigma>"
    and "srv_channels (checkRegistration \<sigma> s) = srv_channels \<sigma>"
    and "heap (checkRegistration \<sigma> s) = (heap \<sigma>)(s \<mapsto> c\<lparr>registered := True\<rparr>)"
    and "out (checkRegistration \<sigma> s) = out \<sigma> @ concat (map (written \<sigma> [s]) (welcome_lines c))"
proof -
  let ?\<sigma>0 = "\<sigma>\<lparr>heap := (heap \<sigma>)(s \<mapsto> c\<lparr>registered := True\<rparr>)\<rparr>"
  have w0: "written ?\<sigma>0 = written \<sigma>"
    by (rule written_heap_upd [OF s, of "c\<lparr>registered := True\<rparr>"]) simp_all
  have h0: "heap ?\<sigma>0 s = Some (c\<lparr>registered := True\<rparr>)" by simp
  show "srv_clients (checkRegistration \<sigma> s) = srv_clients \<sigma>"
    using s r n u by (simp add: checkRegistration_def Let_def)
  show "srv_channels (checkRegistration \<sigma> s) = srv_channels \<sigma>"
    using s r n u by (simp add: checkRegistration_def Let_def)
  show "heap (checkRegistration \<sigma> s) = (heap \<sigma>)(s \<mapsto> c\<lparr>registered := True\<rparr>)"
    using s r n u by (simp add: checkRegistration_def Let_def)
  show "out (checkRegistration \<sigma> s) = out \<sigma> @ concat (map (written \<sigma> [s]) (welcome_lines c))"
    using s r n u w0
    by (simp add: checkRegistration_def Let_def out_sendReply [where c = "c\<lparr>registered := True\<rparr>"]
        welcome_lines_def)
qed

lemma wf_heap_upd:
  assumes "wf \<sigma>" and "heap \<sigma> s = Some c" and "channels c' = channels c"
    and "registered c \<longrightarrow> registered c'"
  shows "wf (\<sigma>\<lparr>heap := (heap \<sigma>)(s \<mapsto> c')\<rparr>)"
  using assms wfm_heap_upd [of "srv_clients \<sigma>" "map_of (srv_channels \<sigma>)" "heap \<sigma>" s c c']
  by (simp add: wf_def)

lemma wf_fields:
  "srv_clients \<sigma>' = srv_clients \<sigma> \<Longrightarrow> srv_channels \<sigma>' = srv_channels \<sigma> \<Longrightarrow> heap \<sigma>' = heap \<sigma>
   \<Longrightarrow> wf \<sigma>' = wf \<sigma>"
  by (simp add: wf_def)

lemma wf_send [simp]: "wf (send \<sigma> s m) = wf \<sigma>"
  by (rule wf_fields) simp_all

lemma wf_sendReply [simp]: "wf (sendReply \<sigma> s code m) = wf \<sigma>"
  by (rule wf_fields) simp_all

lemma wf_broadcastToChannel [simp]: "wf (broadcastToChannel \<sigma> ch line ex) = wf \<sigma>"
  by (rule wf_fields) simp_all

lemma wf_broadcastToChannels [simp]: "wf (broadcastToChannels \<sigma> s ns line) = wf \<sigma>"
  by (rule wf_fields) simp_all

lemma wf_checkRegistration:
  assumes w: "wf \<sigma>"
  shows "wf (checkRegistration \<sigma> s)"
proof (cases "heap \<sigma> s")
  case None
  then show ?thesis using w by (simp add: checkRegistration_def)
next
  case (Some c)
  show ?thesis
  proof (cases "\<not> registered c \<and> truthy (nickname c) \<and> truthy (username c)")
    case True
    have "wf (\<sigma>\<lparr>heap := (heap \<sigma>)(s \<mapsto> c\<lparr>registered := True\<rparr>)\<rparr>)"
      using w Some by (rule wf_heap_upd) simp_all
    moreover have "wf (checkRegistration \<sigma> s) = wf (\<sigma>\<lparr>heap := (heap \<sigma>)(s \<mapsto> c\<lparr>registered := True\<rparr>)\<rparr>)"
      using checkRegistration_promote(1-3) [OF Some] True by (intro wf_fields) simp_all
    ultimately show ?thesis by simp
  next
    case False
    then show ?thesis using w checkRegistration_noop [OF Some] by auto
  qed
qed

lemma wf_handleUser: "wf \<sigma> \<Longrightarrow> wf (handleUser \<sigma> s parts)"
  by (auto simp: handleUser_def split: option.splits intro!: wf_checkRegistration wf_heap_upd)

lemma wf_handleNick: "wf \<sigma> \<Longrightarrow> wf (handleNick \<sigma> s parts)"
  by (auto simp: handleNick_def Let_def split: option.splits intro!: wf_checkRegistration wf_heap_upd)

section \<open>The invariant under each handler\<close>

lemma wf_join_state:
  assumes w: "wf \<sigma>" and s: "heap \<sigma> s = Some c" and r: "registered c"
    and n: "map_of (srv_channels \<sigma>) n = Some chan \<and> s \<notin> set (clients chan)
            \<or> map_of (srv_channels \<sigma>) n = None \<and> chan = \<lparr>name = n, clients = [], topic = None\<rparr>"
  shows "wf (\<sigma>\<lparr>srv_channels := AList.update n (chan\<lparr>clients := set_add s (clients chan)\<rparr>) (srv_channels \<sigma>),
              heap := (heap \<sigma>)(s \<mapsto> c\<lparr>channels := set_add n (channels c)\<rparr>)\<rparr>)"
proof -
  have d: "distinct (map fst (srv_channels \<sigma>))"
    and m: "wfm (srv_clients \<sigma>) (map_of (srv_channels \<sigma>)) (heap \<sigma>)"
    using w by (simp_all add: wf_def)
  from wfm_join [OF m s r n] d show ?thesis
    by (simp add: wf_def update_conv' distinct_update)
qed

lemma wf_handleJoin:
  assumes w: "wf \<sigma>"
  shows "wf (handleJoin \<sigma> s parts)"
proof (cases "heap \<sigma> s")
  case None
  then show ?thesis using w by (simp add: handleJoin_def)
next
  case (Some c)
  let ?n = "parts ! 1"
  show ?thesis
  proof (cases "registered c \<and> \<not> length parts < 2 \<and> startsWith ?n CHR ''#''")
    case False
    then show ?thesis using w Some by (auto simp: handleJoin_def Let_def)
  next
    case True
    show ?thesis
    proof (cases "map_of (srv_channels \<sigma>) ?n")
      case None
      let ?new = "\<lparr>name = ?n, clients = [], topic = None\<rparr>"
      have "wf (\<sigma>\<lparr>srv_channels := AList.update ?n (?new\<lparr>clients := set_add s (clients ?new)\<rparr>) (srv_channels \<sigma>),
              heap := (heap \<sigma>)(s \<mapsto> c\<lparr>channels := set_add ?n (channels c)\<rparr>)\<rparr>)"
        using w Some _ by (rule wf_join_state) (use True None in simp_all)
      then show ?thesis using Some True None
        by (simp add: handleJoin_def Let_def)
    next
      case (Some chan)
      show ?thesis
      proof (cases "s \<in> set (clients chan)")
        case True
        then show ?thesis using w \<open>heap \<sigma> s = Some c\<close> Some by (simp add: handleJoin_def Let_def)
      next
        case False
        have "wf (\<sigma>\<lparr>srv_channels := AList.update ?n (chan\<lparr>clients := set_add s (clients chan)\<rparr>) (srv_channels \<sigma>),
              heap := (heap \<sigma>)(s \<mapsto> c\<lparr>channels := set_add ?n (channels c)\<rparr>)\<rparr>)"
          using w \<open>heap \<sigma> s = Some c\<close> _ by (rule wf_join_state) (use True Some False in simp_all)
        then show ?thesis using \<open>heap \<sigma> s = Some c\<close> True Some False
          by (simp add: handleJoin_def Let_def)
      qed
    qed
  qed
qed

lemma wf_leave_state:
  assumes w: "wf \<sigma>" and s: "heap \<sigma> s = Some c" and n: "map_of (srv_channels \<sigma>) n = Some chan"
    and f: "srv_clients \<sigma>' = srv_clients \<sigma>"
  shows "wf (\<sigma>'\<lparr>srv_channels := leave_channel s n chan (srv_channels \<sigma>),
               heap := (heap \<sigma>)(s \<mapsto> c\<lparr>channels := removeAll n (channels c)\<rparr>)\<rparr>)"
proof -
  have d: "distinct (map fst (srv_channels \<sigma>))"
    and m: "wfm (srv_clients \<sigma>) (map_of (srv_channels \<sigma>)) (heap \<sigma>)"
    using w by (simp_all add: wf_def)
  from wfm_leave [OF m s n] d f show ?thesis
    by (simp add: wf_def map_of_leave_channel distinct_leave_channel)
qed

lemma wf_handlePart:
  assumes w: "wf \<sigma>"
  shows "wf (handlePart \<sigma> s parts)"
proof (cases "heap \<sigma> s")
  case None
  then show ?thesis using w by (simp add: handlePart_def)
next
  case (Some c)
  show ?thesis
  proof (cases "map_of (srv_channels \<sigma>) (parts ! 1)")
    case None
    then show ?thesis using w Some by (simp add: handlePart_def Let_def)
  next
    case chan: (Some chan)
    have "wf (\<sigma>'\<lparr>srv_channels := leave_channel s (parts ! 1) chan (srv_channels \<sigma>),
               heap := (heap \<sigma>)(s \<mapsto> c\<lparr>channels := removeAll (parts ! 1) (channels c)\<rparr>)\<rparr>)"
      if "srv_clients \<sigma>' = srv_clients \<sigma>" for \<sigma>'
      using w Some chan that by (rule wf_leave_state)
    then show ?thesis
      using w Some chan by (simp add: handlePart_def Let_def)
  qed
qed

lemma wf_handleQuit: "wf \<sigma> \<Longrightarrow> wf (handleQuit \<sigma> s parts)"
  by (simp add: handleQuit_def Let_def wf_removeClient split: option.splits)

lemma wf_handleTopic:
  assumes w: "wf \<sigma>"
  shows "wf (handleTopic \<sigma> s parts)"
proof -
  have upd: "wf (\<sigma>\<lparr>srv_channels := AList.update n (chan\<lparr>topic := t\<rparr>) (srv_channels \<sigma>)\<rparr>)"
    if "map_of (srv_channels \<sigma>) n = Some chan" for n chan t
    using w wfm_topic [of "srv_clients \<sigma>" "map_of (srv_channels \<sigma>)" "heap \<sigma>" n chan t] that
    by (simp add: wf_def update_conv' distinct_update)
  show ?thesis
    using w by (auto simp: handleTopic_def Let_def upd split: option.splits)
qed

lemma core_fold:
  assumes "\<And>x \<sigma>. core (f x \<sigma>) = core \<sigma>"
  shows "core (fold f xs \<sigma>) = core \<sigma>"
  by (induction xs arbitrary: \<sigma>) (simp_all add: assms)

lemma core_who_entries [simp]: "core (who_entries \<sigma> s target ms) = core \<sigma>"
  unfolding who_entries_def by (rule core_fold) (simp split: option.splits)

lemma core_handlePrivmsg: "core (handlePrivmsg \<sigma> s parts) = core \<sigma>"
  by (simp add: handlePrivmsg_def Let_def split: option.splits)

lemma core_handlePing: "core (handlePing \<sigma> s parts) = core \<sigma>"
  by (simp add: handlePing_def)

lemma core_handleWho: "core (handleWho \<sigma> s parts) = core \<sigma>"
  by (simp add: handleWho_def Let_def split: option.splits)

lemma core_handleWhois: "core (handleWhois \<sigma> s parts) = core \<sigma>"
  by (simp add: handleWhois_def Let_def split: option.splits)

lemma core_handleList: "core (handleList \<sigma> s parts) = core \<sigma>"
proof (cases "heap \<sigma> s")
  case None
  then show ?thesis by (simp add: handleList_def)
next
  case (Some c)
  show ?thesis
  proof (cases "registered c")
    case False
    then show ?thesis using Some by (simp add: handleList_def)
  next
    case True
    let ?f = "\<lambda>(k, channel) \<sigma>'.
                 sendReply \<sigma>' s ''322''
                   (name channel @ '' '' @ digits (length (clients channel)) @ '' :''
                    @ or_default (topic channel) [])"
    let ?\<sigma>1 = "sendReply \<sigma> s ''321'' ''Channel :Users  Name''"
    have a: "core (fold ?f xs \<sigma>0) = core \<sigma>0" for xs \<sigma>0
      by (rule core_fold) (simp split: prod.splits)
    have "handleList \<sigma> s parts = sendReply (fold ?f (srv_channels \<sigma>) ?\<sigma>1) s ''323'' '':End of /LIST''"
      unfolding handleList_def Let_def using Some True by simp
    then have "core (handleList \<sigma> s parts) = core (fold ?f (srv_channels \<sigma>) ?\<sigma>1)"
      by (simp only: core_sendReply)
    also have "\<dots> = core ?\<sigma>1" by (rule a)
    also have "\<dots> = core \<sigma>" by (rule core_sendReply)
    finally show ?thesis .
  qed
qed

lemma core_handleMode: "core (handleMode \<sigma> s parts) = core \<sigma>"
  by (simp add: handleMode_def Let_def split: option.splits)

lemma wf_handleMessage: "wf \<sigma> \<Longrightarrow> wf (handleMessage \<sigma> s message)"
  by (simp add: handleMessage_def Let_def wf_handleUser wf_handleNick wf_handleJoin wf_handlePart
      wf_handleQuit wf_handleTopic
      wf_core [OF core_handlePrivmsg] wf_core [OF core_handlePing] wf_core [OF core_handleWho]
      wf_core [OF core_handleWhois] wf_core [OF core_handleList] wf_core [OF core_handleMode])

lemma wf_socket_ended: "wf \<sigma> \<Longrightarrow> wf (socket_ended \<sigma> s gone)"
  by (auto simp: socket_ended_def split: option.splits intro!: wf_heap_upd)

lemma reachable_wf: "reachable \<sigma> \<Longrightarrow> wf \<sigma>"
  by (induction rule: reachable.induct)
    (simp_all add: wf_init wf_connect wf_handleMessage wf_removeClient wf_socket_ended)

lemma reachable_step:
  assumes r: "reachable \<sigma>" and p: "possible \<sigma> e"
  shows "reachable (step \<sigma> e)"
proof (cases e)
  case (Connect s remoteAddress)
  then have "heap \<sigma> s = None" using p by (simp add: known_def split: option.splits)
  with r show ?thesis unfolding Connect by (simp add: reach_connect)
next
  case (Line s message)
  then have "heap \<sigma> s \<noteq> None" using p by (simp add: known_def split: option.splits)
  with r show ?thesis unfolding Line by (simp add: reach_line)
next
  case (Close s)
  then have "heap \<sigma> s \<noteq> None" using p by (simp add: known_def split: option.splits)
  with r show ?thesis unfolding Close by (simp add: reach_close)
next
  case (Ended s gone)
  then have "heap \<sigma> s \<noteq> None" using p by (simp add: known_def split: option.splits)
  with r show ?thesis unfolding Ended by (simp add: reach_ended)
qed

lemma reachable_foldl: "reachable \<sigma> \<Longrightarrow> admissible \<sigma> es \<Longrightarrow> reachable (foldl step \<sigma> es)"
  by (induction es arbitrary: \<sigma>) (simp_all add: reachable_step)

lemma reachable_run: "admissible init es \<Longrightarrow> reachable (run es)"
  unfolding run_def by (rule reachable_foldl [OF reach_init])

section \<open>Example runs are possible\<close>

lemma admissible_room: "admissible init room_events"
  unfolding room_events_def by code_simp

lemma admissible_blank_nick: "admissible init blank_nick_events"
  unfolding blank_nick_events_def room_events_def by code_simp

section \<open>Membership is kept on both sides\<close>

lemma wf_directory:
  assumes w: "wf \<sigma>"
  shows "n \<in> fst ` set (srv_channels \<sigma>) \<longleftrightarrow> members \<sigma> n \<noteq> []"
proof (cases "map_of (srv_channels \<sigma>) n")
  case None
  then have "n \<notin> fst ` set (srv_channels \<sigma>)" by (simp add: map_of_eq_None_iff)
  then show ?thesis using None by (simp add: members_def)
next
  case (Some chan)
  have "wfm (srv_clients \<sigma>) (map_of (srv_channels \<sigma>)) (heap \<sigma>)" using w by (simp add: wf_def)
  from wfm_chan [OF this Some] have "clients chan \<noteq> []" by simp
  moreover have "n \<in> fst ` set (srv_channels \<sigma>)"
    using Some by (metis map_of_eq_None_iff option.distinct(1))
  ultimately show ?thesis using Some by (simp add: members_def)
qed

lemma wf_member_lists:
  assumes w: "wf \<sigma>" and m: "m \<in> set (members \<sigma> n)"
  shows "\<exists>c. heap \<sigma> m = Some c \<and> registered c \<and> n \<in> set (channels c)"
proof -
  have wm: "wfm (srv_clients \<sigma>) (map_of (srv_channels \<sigma>)) (heap \<sigma>)" using w by (simp add: wf_def)
  from m obtain chan where "map_of (srv_channels \<sigma>) n = Some chan" "m \<in> set (clients chan)"
    by (cases "map_of (srv_channels \<sigma>) n") (auto simp: members_def)
  then show ?thesis by (rule wfm_member [OF wm])
qed

lemma wf_client_lists:
  assumes w: "wf \<sigma>" and s: "s \<in> set (srv_clients \<sigma>)"
  shows "\<exists>c. heap \<sigma> s = Some c \<and> (\<forall>n. s \<in> set (members \<sigma> n) \<longleftrightarrow> n \<in> set (channels c))"
proof -
  have wm: "wfm (srv_clients \<sigma>) (map_of (srv_channels \<sigma>)) (heap \<sigma>)" using w by (simp add: wf_def)
  from wfm_client [OF wm s] obtain c where c: "heap \<sigma> s = Some c"
    and j: "\<forall>n \<in> set (channels c). \<exists>chan. map_of (srv_channels \<sigma>) n = Some chan \<and> s \<in> set (clients chan)"
    by blast
  have "s \<in> set (members \<sigma> n) \<longleftrightarrow> n \<in> set (channels c)" for n
  proof
    assume "s \<in> set (members \<sigma> n)"
    from wf_member_lists [OF w this] c show "n \<in> set (channels c)" by simp
  next
    assume "n \<in> set (channels c)"
    with j show "s \<in> set (members \<sigma> n)" by (auto simp: members_def)
  qed
  with c show ?thesis by blast
qed

text \<open>
  What does hold in every state that connections, lines and disconnections can produce: a
  channel name is in the directory iff its member list is not empty; a client of the
  registry is in the member list of a channel iff the client's own set of joined channels
  has the channel's name; and every member of a channel is a client object that lists the
  channel.
\<close>

lemma registry_membership_consistent:
  assumes "reachable \<sigma>"
  shows "(\<forall>n. n \<in> fst ` set (srv_channels \<sigma>) \<longleftrightarrow> members \<sigma> n \<noteq> []) \<and>
         (\<forall>s \<in> set (srv_clients \<sigma>). \<exists>c. heap \<sigma> s = Some c \<and>
            (\<forall>n. s \<in> set (members \<sigma> n) \<longleftrightarrow> n \<in> set (channels c))) \<and>
         (\<forall>n. \<forall>m \<in> set (members \<sigma> n). \<exists>c. heap \<sigma> m = Some c \<and> n \<in> set (channels c))"
proof -
  have w: "wf \<sigma>" using assms by (rule reachable_wf)
  show ?thesis
  proof (intro conjI allI ballI)
    fix n show "n \<in> fst ` set (srv_channels \<sigma>) \<longleftrightarrow> members \<sigma> n \<noteq> []"
      by (rule wf_directory [OF w])
  next
    fix s assume "s \<in> set (srv_clients \<sigma>)"
    then show "\<exists>c. heap \<sigma> s = Some c \<and> (\<forall>n. s \<in> set (members \<sigma> n) \<longleftrightarrow> n \<in> set (channels c))"
      by (rule wf_client_lists [OF w])
  next
    fix n m assume "m \<in> set (members \<sigma> n)"
    from wf_member_lists [OF w this]
    show "\<exists>c. heap \<sigma> m = Some c \<and> n \<in> set (channels c)" by blast
  qed
qed

lemma registry_membership_consistent_example:
  "admissible init room_events \<and>
   (''#test'' \<in> fst ` set (srv_channels (run room_events)) \<longleftrightarrow> members (run room_events) ''#test'' \<noteq> []) \<and>
   (''#none'' \<in> fst ` set (srv_channels (run room_events)) \<longleftrightarrow> members (run room_events) ''#none'' \<noteq> [])"
  using registry_membership_consistent [OF reachable_run [OF admissible_room]] admissible_room
  by blast

text \<open>
  C4 at a run that breaks it. Alice and bob are in \<^verbatim>\<open>#test\<close>, and one chunk of alice's socket
  holds \<^verbatim>\<open>QUIT :bye\<close> and \<^verbatim>\<open>JOIN #zombie\<close>. The QUIT takes her out of the registry and out of the
  member list of \<^verbatim>\<open>#test\<close>, but \<^verbatim>\<open>removeClient\<close> leaves her own set of channels as it was; the
  JOIN, dispatched to the removed client, is accepted. In the state reached alice's object
  is the only member of \<^verbatim>\<open>#zombie\<close> and lists \<^verbatim>\<open>#test\<close>, of which it is no member: the two sides of
  the relation differ for a client that a channel holds. The PART command in the state
  before the chunk clears both sides.
\<close>

theorem removed_client_breaks_membership:
  "admissible init late_join_events \<and>
   srv_clients (run late_join_events) = [1] \<and>
   members (run late_join_events) ''#test'' = [1] \<and>
   members (run late_join_events) ''#zombie'' = [0] \<and>
   map_option channels (heap (run late_join_events) 0) = Some [''#test'', ''#zombie''] \<and>
   map_option channels (heap (run (room_events @ [Line 0 ''QUIT :bye''])) 0) = Some [''#test''] \<and>
   members (handleMessage (run room_events) 0 ''PART #test'') ''#test'' = [1] \<and>
   map_option channels (heap (handleMessage (run room_events) 0 ''PART #test'') 0) = Some []"
  by code_simp

section \<open>Dispatch\<close>

lemma handleMessage_verbs:
  "toUpperCase (hd (split_sp message)) = ''USER'' \<Longrightarrow> handleMessage \<sigma> s message = handleUser \<sigma> s (split_sp message)"
  "toUpperCase (hd (split_sp message)) = ''NICK'' \<Longrightarrow> handleMessage \<sigma> s message = handleNick \<sigma> s (split_sp message)"
  "toUpperCase (hd (split_sp message)) = ''JOIN'' \<Longrightarrow> handleMessage \<sigma> s message = handleJoin \<sigma> s (split_sp message)"
  "toUpperCase (hd (split_sp message)) = ''PART'' \<Longrightarrow> handleMessage \<sigma> s message = handlePart \<sigma> s (split_sp message)"
  "toUpperCase (hd (split_sp message)) = ''PRIVMSG'' \<Longrightarrow> handleMessage \<sigma> s message = handlePrivmsg \<sigma> s (split_sp message)"
  "toUpperCase (hd (split_sp message)) = ''WHO'' \<Longrightarrow> handleMessage \<sigma> s message = handleWho \<sigma> s (split_sp message)"
  "toUpperCase (hd (split_sp message)) = ''WHOIS'' \<Longrightarrow> handleMessage \<sigma> s message = handleWhois \<sigma> s (split_sp message)"
  "toUpperCase (hd (split_sp message)) = ''LIST'' \<Longrightarrow> handleMessage \<sigma> s message = handleList \<sigma> s (split_sp message)"
  "toUpperCase (hd (split_sp message)) = ''TOPIC'' \<Longrightarrow> handleMessage \<sigma> s message = handleTopic \<sigma> s (split_sp message)"
  "toUpperCase (hd (split_sp message)) = ''MODE'' \<Longrightarrow> handleMessage \<sigma> s message = handleMode \<sigma> s (split_sp message)"
  by (simp_all add: handleMessage_def Let_def)

section \<open>Nickname changes\<close>

lemma nick_in_useI:
  "t \<in> set (srv_clients \<sigma>) \<Longrightarrow> t \<noteq> s \<Longrightarrow> heap \<sigma> t = Some oc \<Longrightarrow> nickname oc = Some n
   \<Longrightarrow> nick_in_use \<sigma> s n"
  by (auto simp: nick_in_use_def list_ex_iff)

lemma handleNick_rejected:
  assumes "heap \<sigma> s = Some c" and "parts = v # n # rest" and "nick_in_use \<sigma> s n"
  shows "handleNick \<sigma> s parts = sendReply \<sigma> s ''433'' (n @ '' :Nickname is already in use'')"
  using assms by (simp add: handleNick_def)

lemma handleNick_registered:
  assumes s: "heap \<sigma> s = Some c" and r: "registered c" and p: "parts = v # n # rest"
    and f: "\<not> nick_in_use \<sigma> s n"
  shows "srv_clients (handleNick \<sigma> s parts) = srv_clients \<sigma>"
    and "srv_channels (handleNick \<sigma> s parts) = srv_channels \<sigma>"
    and "heap (handleNick \<sigma> s parts) = (heap \<sigma>)(s \<mapsto> c\<lparr>nickname := Some n\<rparr>)"
    and "out (handleNick \<sigma> s parts) = out \<sigma> @
           (if truthy (nickname c) then
              concat (map (\<lambda>k. written \<sigma> (filter (\<lambda>t. t \<noteq> s) (members \<sigma> k))
                                ('':'' @ tmpl (nickname c) @ ''!'' @ tmpl (username c) @ ''@'' @ hostname c
                                 @ '' NICK :'' @ n))
                      (channels c))
            else [])"
proof -
  let ?\<sigma>1 = "\<sigma>\<lparr>heap := (heap \<sigma>)(s \<mapsto> c\<lparr>nickname := Some n\<rparr>)\<rparr>"
  let ?line = "'':'' @ tmpl (nickname c) @ ''!'' @ tmpl (username c) @ ''@'' @ hostname c @ '' NICK :'' @ n"
  let ?\<sigma>2 = "if truthy (nickname c) then broadcastToChannels ?\<sigma>1 s (channels c) ?line else ?\<sigma>1"
  have w1: "written ?\<sigma>1 = written \<sigma>"
    by (rule written_heap_upd [OF s, of "c\<lparr>nickname := Some n\<rparr>"]) simp_all
  have m1: "members ?\<sigma>1 = members \<sigma>" by (rule members_cong) simp
  have h2: "heap ?\<sigma>2 s = Some (c\<lparr>nickname := Some n\<rparr>)" by simp
  have c2: "checkRegistration ?\<sigma>2 s = ?\<sigma>2"
    by (rule checkRegistration_noop [OF h2]) (simp add: r)
  have e: "handleNick \<sigma> s parts = ?\<sigma>2"
    using s r p f c2 by (simp add: handleNick_def Let_def)
  show "srv_clients (handleNick \<sigma> s parts) = srv_clients \<sigma>" unfolding e by simp
  show "srv_channels (handleNick \<sigma> s parts) = srv_channels \<sigma>" unfolding e by simp
  show "heap (handleNick \<sigma> s parts) = (heap \<sigma>)(s \<mapsto> c\<lparr>nickname := Some n\<rparr>)" unfolding e by simp
  show "out (handleNick \<sigma> s parts) = out \<sigma> @
           (if truthy (nickname c) then
              concat (map (\<lambda>k. written \<sigma> (filter (\<lambda>t. t \<noteq> s) (members \<sigma> k)) ?line) (channels c))
            else [])"
    unfolding e by (simp add: out_broadcastToChannels w1 m1)
qed

lemma handleNick_unregistered:
  assumes s: "heap \<sigma> s = Some c" and r: "\<not> registered c" and p: "parts = v # n # rest"
    and f: "\<not> nick_in_use \<sigma> s n"
  shows "handleNick \<sigma> s parts = checkRegistration (\<sigma>\<lparr>heap := (heap \<sigma>)(s \<mapsto> c\<lparr>nickname := Some n\<rparr>)\<rparr>) s"
  using assms by (simp add: handleNick_def Let_def)

text \<open>
  C3. A client asks, with a NICK line, for the nickname that another client of the registry
  holds. The line is answered with the 433 reply alone, written to the asking client, and
  nothing else changes: both maps and every client object, the two clients' among them,
  are as before.
\<close>

theorem nick_collision_rejected:
  assumes "heap \<sigma> s = Some c"
    and "t \<in> set (srv_clients \<sigma>)" and "t \<noteq> s"
    and "heap \<sigma> t = Some oc" and "registered oc" and "nickname oc = Some n"
    and "split_sp message = v # n # rest" and "toUpperCase v = ''NICK''"
  shows "core (handleMessage \<sigma> s message) = core \<sigma> \<and>
         heap (handleMessage \<sigma> s message) s = Some c \<and>
         heap (handleMessage \<sigma> s message) t = Some oc \<and>
         out (handleMessage \<sigma> s message)
           = out \<sigma> @ written \<sigma> [s] (reply_line (nickname c) ''433'' (n @ '' :Nickname is already in use''))"
proof -
  have u: "nick_in_use \<sigma> s n" using assms(2,3,4,6) by (rule nick_in_useI)
  have "handleMessage \<sigma> s message = handleNick \<sigma> s (split_sp message)"
    using assms(7,8) by (simp add: handleMessage_verbs)
  also have "\<dots> = sendReply \<sigma> s ''433'' (n @ '' :Nickname is already in use'')"
    using assms(1,7) u by (rule handleNick_rejected)
  finally have e: "handleMessage \<sigma> s message = sendReply \<sigma> s ''433'' (n @ '' :Nickname is already in use'')" .
  show ?thesis unfolding e using assms(1,4) by (simp add: out_sendReply)
qed

section \<open>The state after the example run\<close>

lemma room_clients: "srv_clients (run room_events) = [0, 1]"
  by code_simp

lemma room_channels:
  "srv_channels (run room_events) = [(''#test'', \<lparr>name = ''#test'', clients = [0, 1], topic = None\<rparr>)]"
  by code_simp

lemma room_alice:
  "heap (run room_events) 0 =
     Some \<lparr>socket = \<lparr>writable = True, destroyed = False\<rparr>, nickname = Some ''alice'',
           username = Some ''alice'', realname = Some ''Alice A'', hostname = ''unknown'',
           registered = True, channels = [''#test'']\<rparr>"
  by code_simp

lemma room_bob:
  "heap (run room_events) 1 =
     Some \<lparr>socket = \<lparr>writable = True, destroyed = False\<rparr>, nickname = Some ''bob'',
           username = Some ''bob'', realname = Some ''Bob B'', hostname = ''10.0.0.2'',
           registered = True, channels = [''#test'']\<rparr>"
  by code_simp

theorem nick_collision_rejected_witness:
  "core (handleMessage (run room_events) 1 ''NICK alice'') = core (run room_events) \<and>
   out (handleMessage (run room_events) 1 ''NICK alice'')
     = out (run room_events) @ written (run room_events) [1]
         (reply_line (Some ''bob'') ''433'' (''alice'' @ '' :Nickname is already in use''))"
proof -
  have p: "split_sp ''NICK alice'' = ''NICK'' # ''alice'' # []" by code_simp
  have v: "toUpperCase ''NICK'' = ''NICK''" by code_simp
  have m: "(0::nat) \<in> set (srv_clients (run room_events))" by (simp add: room_clients)
  show ?thesis
    using nick_collision_rejected [OF room_bob m _ room_alice _ _ p v] by simp
qed

section \<open>Commands before registration\<close>

lemma unregistered_handlers:
  assumes "heap \<sigma> s = Some c" and "\<not> registered c"
  shows "handleJoin \<sigma> s parts = sendReply \<sigma> s ''451'' '':You have not registered''"
    and "handlePart \<sigma> s parts = sendReply \<sigma> s ''451'' '':You have not registered''"
    and "handlePrivmsg \<sigma> s parts = sendReply \<sigma> s ''451'' '':You have not registered''"
    and "handleWho \<sigma> s parts = sendReply \<sigma> s ''451'' '':You have not registered''"
    and "handleWhois \<sigma> s parts = sendReply \<sigma> s ''451'' '':You have not registered''"
    and "handleList \<sigma> s parts = sendReply \<sigma> s ''451'' '':You have not registered''"
    and "handleTopic \<sigma> s parts = sendReply \<sigma> s ''451'' '':You have not registered''"
    and "handleMode \<sigma> s parts = sendReply \<sigma> s ''451'' '':You have not registered''"
  using assms
  by (simp_all add: handleJoin_def handlePart_def handlePrivmsg_def handleWho_def handleWhois_def
      handleList_def handleTopic_def handleMode_def)

lemma handleMessage_unknown:
  assumes "command = toUpperCase (hd (split_sp message))"
    and "command \<notin> {''USER'', ''NICK'', ''JOIN'', ''PART'', ''PRIVMSG'', ''PING'', ''QUIT'', ''WHO'',
                       ''WHOIS'', ''LIST'', ''TOPIC'', ''MODE''}"
  shows "handleMessage \<sigma> s message = sendReply \<sigma> s ''421'' (command @ '' :Unknown command'')"
  using assms by (simp add: handleMessage_def Let_def)

text \<open>
  C5, as the code has it. An unregistered client sends a line whose verb is none of NICK,
  USER, PING and QUIT. If the verb is one of JOIN, PART, PRIVMSG, WHO, WHOIS, LIST, TOPIC
  and MODE, the answer is the 451 reply; any other verb is not a command of the server and
  the answer is the 421 reply that names it. In both cases the reply is the only write,
  and both maps and every client object are unchanged.
\<close>

theorem unregistered_commands_refused:
  assumes "heap \<sigma> s = Some c" and "\<not> registered c"
    and "command = toUpperCase (hd (split_sp message))"
    and "command \<notin> {''NICK'', ''USER'', ''PING'', ''QUIT''}"
  shows "core (handleMessage \<sigma> s message) = core \<sigma> \<and>
         out (handleMessage \<sigma> s message) = out \<sigma> @ written \<sigma> [s]
           (if command \<in> {''JOIN'', ''PART'', ''PRIVMSG'', ''WHO'', ''WHOIS'', ''LIST'', ''TOPIC'', ''MODE''}
            then reply_line (nickname c) ''451'' '':You have not registered''
            else reply_line (nickname c) ''421'' (command @ '' :Unknown command''))"
proof (cases "command \<in> {''JOIN'', ''PART'', ''PRIVMSG'', ''WHO'', ''WHOIS'', ''LIST'', ''TOPIC'', ''MODE''}")
  case True
  then have "handleMessage \<sigma> s message = sendReply \<sigma> s ''451'' '':You have not registered''"
    using assms(3) unregistered_handlers [OF assms(1,2)]
    by (auto simp: handleMessage_verbs)
  then show ?thesis using True assms(1) by (simp add: out_sendReply)
next
  case False
  then have "handleMessage \<sigma> s message = sendReply \<sigma> s ''421'' (command @ '' :Unknown command'')"
    using assms(3,4) by (intro handleMessage_unknown) auto
  then show ?thesis using False assms(1) by (simp add: out_sendReply)
qed

theorem unregistered_commands_refused_witness:
  "core (handleMessage (connect init 0 None) 0 ''join #test'') = core (connect init 0 None) \<and>
   out (handleMessage (connect init 0 None) 0 ''join #test'')
     = out (connect init 0 None) @ written (connect init 0 None) [0]
         (reply_line None ''451'' '':You have not registered'')"
proof -
  have h: "heap (connect init 0 None) 0 =
     Some \<lparr>socket = \<lparr>writable = True, destroyed = False\<rparr>, nickname = None,
           username = None, realname = None, hostname = ''unknown'',
           registered = False, channels = []\<rparr>"
    by code_simp
  have v: "''JOIN'' = toUpperCase (hd (split_sp ''join #test''))" by code_simp
  show ?thesis
    using unregistered_commands_refused [OF h _ v] by simp
qed

text \<open>
  The claim as it was stated fails on a verb the server does not know: the unregistered
  client that sends \<^verbatim>\<open>FOO\<close> is answered with 421, not with 451.
\<close>

theorem unregistered_unknown_verb_counterexample:
  "(case heap (connect init 0 None) 0 of None \<Rightarrow> False | Some c \<Rightarrow> \<not> registered c) \<and>
   toUpperCase (hd (split_sp ''FOO'')) \<notin> {''NICK'', ''USER'', ''PING'', ''QUIT''} \<and>
   out (handleMessage (connect init 0 None) 0 ''FOO'')
     = [(0, '':irc.comicserver.local 421 * FOO :Unknown command'' @ crlf)] \<and>
   out (handleMessage (connect init 0 None) 0 ''FOO'')
     \<noteq> out (connect init 0 None) @ written (connect init 0 None) [0]
         (reply_line None ''451'' '':You have not registered'')"
  by code_simp

section \<open>Promotion to registered\<close>

lemma handleUser_accepted:
  assumes "heap \<sigma> s = Some c" and "5 \<le> length parts"
  shows "handleUser \<sigma> s parts =
           checkRegistration
             (\<sigma>\<lparr>heap := (heap \<sigma>)(s \<mapsto> c\<lparr>username := Some (parts ! 1),
                                           realname := Some (drop 1 (join_sp (drop 4 parts)))\<rparr>)\<rparr>) s"
  using assms by (simp add: handleUser_def)

lemma promote_after_update:
  assumes s: "heap \<sigma> s = Some c" and k: "socket c' = socket c"
    and r: "\<not> registered c'" and n: "truthy (nickname c')" and u: "truthy (username c')"
  shows "heap (checkRegistration (\<sigma>\<lparr>heap := (heap \<sigma>)(s \<mapsto> c')\<rparr>) s) s = Some (c'\<lparr>registered := True\<rparr>)"
    and "out (checkRegistration (\<sigma>\<lparr>heap := (heap \<sigma>)(s \<mapsto> c')\<rparr>) s)
           = out \<sigma> @ concat (map (written \<sigma> [s]) (welcome_lines c'))"
proof -
  let ?\<sigma>1 = "\<sigma>\<lparr>heap := (heap \<sigma>)(s \<mapsto> c')\<rparr>"
  have h: "heap ?\<sigma>1 s = Some c'" by simp
  have w: "written ?\<sigma>1 = written \<sigma>" by (rule written_heap_upd [OF s k]) simp
  show "heap (checkRegistration ?\<sigma>1 s) s = Some (c'\<lparr>registered := True\<rparr>)"
    using checkRegistration_promote(3) [OF h r n u] by simp
  show "out (checkRegistration ?\<sigma>1 s) = out \<sigma> @ concat (map (written \<sigma> [s]) (welcome_lines c'))"
    using checkRegistration_promote(4) [OF h r n u] w by simp
qed

lemma no_promotion_after_update:
  assumes "registered c' \<or> \<not> truthy (nickname c') \<or> \<not> truthy (username c')"
  shows "checkRegistration (\<sigma>\<lparr>heap := (heap \<sigma>)(s \<mapsto> c')\<rparr>) s = \<sigma>\<lparr>heap := (heap \<sigma>)(s \<mapsto> c')\<rparr>"
  by (rule checkRegistration_noop [where c = c']) (use assms in simp_all)

text \<open>
  C2. Let \<open>c\<close> be the object of a client. (1) If the client is not registered and has a
  username, an accepted NICK with a non-empty name promotes it, and the output of the step
  is the four welcome lines 001, 002, 003, 004 in this order, to this client. (2) If it is
  not registered and has a nickname, an accepted USER with a non-empty name does the same.
  (3) While the nickname or the username is still missing, an accepted NICK or USER stores
  its field and neither registers the client nor writes anything. (4) Once the client is
  registered, \<^verbatim>\<open>checkRegistration\<close> changes nothing; an accepted NICK stores the new nickname and
  writes nothing to the client itself; an accepted USER stores its two fields and writes
  nothing at all; the client stays registered.
\<close>

theorem registration_welcome_once:
  assumes "heap \<sigma> s = Some c"
  shows "(\<not> registered c \<and> truthy (username c) \<and> n \<noteq> [] \<and> \<not> nick_in_use \<sigma> s n \<longrightarrow>
            heap (handleNick \<sigma> s (v # n # rest)) s = Some (c\<lparr>nickname := Some n, registered := True\<rparr>) \<and>
            out (handleNick \<sigma> s (v # n # rest))
              = out \<sigma> @ concat (map (written \<sigma> [s]) (welcome_lines (c\<lparr>nickname := Some n\<rparr>)))) \<and>
         (\<not> registered c \<and> truthy (nickname c) \<and> 5 \<le> length parts \<and> parts ! 1 \<noteq> [] \<longrightarrow>
            heap (handleUser \<sigma> s parts) s
              = Some (c\<lparr>username := Some (parts ! 1), realname := Some (drop 1 (join_sp (drop 4 parts))),
                       registered := True\<rparr>) \<and>
            out (handleUser \<sigma> s parts)
              = out \<sigma> @ concat (map (written \<sigma> [s])
                  (welcome_lines (c\<lparr>username := Some (parts ! 1),
                                     realname := Some (drop 1 (join_sp (drop 4 parts)))\<rparr>)))) \<and>
         (\<not> registered c \<and> (\<not> truthy (username c) \<or> n = []) \<and> \<not> nick_in_use \<sigma> s n \<longrightarrow>
            handleNick \<sigma> s (v # n # rest) = \<sigma>\<lparr>heap := (heap \<sigma>)(s \<mapsto> c\<lparr>nickname := Some n\<rparr>)\<rparr>) \<and>
         (\<not> registered c \<and> (\<not> truthy (nickname c) \<or> parts ! 1 = []) \<and> 5 \<le> length parts \<longrightarrow>
            handleUser \<sigma> s parts
              = \<sigma>\<lparr>heap := (heap \<sigma>)(s \<mapsto> c\<lparr>username := Some (parts ! 1),
                                            realname := Some (drop 1 (join_sp (drop 4 parts)))\<rparr>)\<rparr>) \<and>
         (registered c \<longrightarrow> checkRegistration \<sigma> s = \<sigma>) \<and>
         (registered c \<and> \<not> nick_in_use \<sigma> s n \<longrightarrow>
            heap (handleNick \<sigma> s (v # n # rest)) s = Some (c\<lparr>nickname := Some n\<rparr>) \<and>
            filter (\<lambda>w. fst w = s) (drop (length (out \<sigma>)) (out (handleNick \<sigma> s (v # n # rest)))) = []) \<and>
         (registered c \<and> 5 \<le> length parts \<longrightarrow>
            handleUser \<sigma> s parts
              = \<sigma>\<lparr>heap := (heap \<sigma>)(s \<mapsto> c\<lparr>username := Some (parts ! 1),
                                            realname := Some (drop 1 (join_sp (drop 4 parts)))\<rparr>)\<rparr>)"
proof (intro conjI impI)
  assume a: "\<not> registered c \<and> truthy (username c) \<and> n \<noteq> [] \<and> \<not> nick_in_use \<sigma> s n"
  have e: "handleNick \<sigma> s (v # n # rest)
             = checkRegistration (\<sigma>\<lparr>heap := (heap \<sigma>)(s \<mapsto> c\<lparr>nickname := Some n\<rparr>)\<rparr>) s"
    using a by (intro handleNick_unregistered [OF assms]) simp_all
  show "heap (handleNick \<sigma> s (v # n # rest)) s = Some (c\<lparr>nickname := Some n, registered := True\<rparr>)"
    unfolding e using a by (subst promote_after_update(1) [OF assms]) (simp_all add: truthy_def)
  show "out (handleNick \<sigma> s (v # n # rest))
          = out \<sigma> @ concat (map (written \<sigma> [s]) (welcome_lines (c\<lparr>nickname := Some n\<rparr>)))"
    unfolding e using a by (subst promote_after_update(2) [OF assms]) (simp_all add: truthy_def)
next
  assume a: "\<not> registered c \<and> truthy (nickname c) \<and> 5 \<le> length parts \<and> parts ! 1 \<noteq> []"
  let ?c' = "c\<lparr>username := Some (parts ! 1), realname := Some (drop 1 (join_sp (drop 4 parts)))\<rparr>"
  have e: "handleUser \<sigma> s parts = checkRegistration (\<sigma>\<lparr>heap := (heap \<sigma>)(s \<mapsto> ?c')\<rparr>) s"
    using a by (intro handleUser_accepted [OF assms]) simp
  show "heap (handleUser \<sigma> s parts) s = Some (?c'\<lparr>registered := True\<rparr>)"
    unfolding e using a by (subst promote_after_update(1) [OF assms]) (simp_all add: truthy_def)
  show "out (handleUser \<sigma> s parts) = out \<sigma> @ concat (map (written \<sigma> [s]) (welcome_lines ?c'))"
    unfolding e using a by (subst promote_after_update(2) [OF assms]) (simp_all add: truthy_def)
next
  assume a: "\<not> registered c \<and> (\<not> truthy (username c) \<or> n = []) \<and> \<not> nick_in_use \<sigma> s n"
  have e: "handleNick \<sigma> s (v # n # rest)
             = checkRegistration (\<sigma>\<lparr>heap := (heap \<sigma>)(s \<mapsto> c\<lparr>nickname := Some n\<rparr>)\<rparr>) s"
    using a by (intro handleNick_unregistered [OF assms]) simp_all
  show "handleNick \<sigma> s (v # n # rest) = \<sigma>\<lparr>heap := (heap \<sigma>)(s \<mapsto> c\<lparr>nickname := Some n\<rparr>)\<rparr>"
    unfolding e using a by (intro no_promotion_after_update) (auto simp: truthy_def)
next
  assume a: "\<not> registered c \<and> (\<not> truthy (nickname c) \<or> parts ! 1 = []) \<and> 5 \<le> length parts"
  let ?c' = "c\<lparr>username := Some (parts ! 1), realname := Some (drop 1 (join_sp (drop 4 parts)))\<rparr>"
  have e: "handleUser \<sigma> s parts = checkRegistration (\<sigma>\<lparr>heap := (heap \<sigma>)(s \<mapsto> ?c')\<rparr>) s"
    using a by (intro handleUser_accepted [OF assms]) simp
  show "handleUser \<sigma> s parts = \<sigma>\<lparr>heap := (heap \<sigma>)(s \<mapsto> ?c')\<rparr>"
    unfolding e using a by (intro no_promotion_after_update) (auto simp: truthy_def)
next
  assume "registered c"
  then show "checkRegistration \<sigma> s = \<sigma>" by (intro checkRegistration_noop [OF assms]) simp
next
  assume a: "registered c \<and> \<not> nick_in_use \<sigma> s n"
  have r: "registered c" and f: "\<not> nick_in_use \<sigma> s n" using a by simp_all
  show "heap (handleNick \<sigma> s (v # n # rest)) s = Some (c\<lparr>nickname := Some n\<rparr>)"
    using handleNick_registered(3) [OF assms r refl f] by simp
  have "filter (\<lambda>w. fst w = s) (concat (map (\<lambda>k. written \<sigma> (filter (\<lambda>t. t \<noteq> s) (members \<sigma> k)) line) ks)) = []"
    for line ks
    by (induction ks) (auto simp: written_def filter_empty_conv)
  then show "filter (\<lambda>w. fst w = s) (drop (length (out \<sigma>)) (out (handleNick \<sigma> s (v # n # rest)))) = []"
    using handleNick_registered(4) [OF assms r refl f] by simp
next
  assume a: "registered c \<and> 5 \<le> length parts"
  let ?c' = "c\<lparr>username := Some (parts ! 1), realname := Some (drop 1 (join_sp (drop 4 parts)))\<rparr>"
  have e: "handleUser \<sigma> s parts = checkRegistration (\<sigma>\<lparr>heap := (heap \<sigma>)(s \<mapsto> ?c')\<rparr>) s"
    using a by (intro handleUser_accepted [OF assms]) simp
  show "handleUser \<sigma> s parts = \<sigma>\<lparr>heap := (heap \<sigma>)(s \<mapsto> ?c')\<rparr>"
    unfolding e using a by (intro no_promotion_after_update) simp
qed

theorem registration_welcome_once_witness:
  "heap (handleUser (handleMessage (connect init 0 None) 0 ''NICK alice'') 0
           [''USER'', ''alice'', ''0'', ''*'', '':Alice'', ''A'']) 0
     = Some \<lparr>socket = \<lparr>writable = True, destroyed = False\<rparr>, nickname = Some ''alice'',
             username = Some ''alice'', realname = Some ''Alice A'', hostname = ''unknown'',
             registered = True, channels = []\<rparr> \<and>
   out (handleUser (handleMessage (connect init 0 None) 0 ''NICK alice'') 0
           [''USER'', ''alice'', ''0'', ''*'', '':Alice'', ''A''])
     = out (handleMessage (connect init 0 None) 0 ''NICK alice'')
       @ concat (map (written (handleMessage (connect init 0 None) 0 ''NICK alice'') [0])
           (welcome_lines \<lparr>socket = \<lparr>writable = True, destroyed = False\<rparr>, nickname = Some ''alice'',
             username = Some ''alice'', realname = Some ''Alice A'', hostname = ''unknown'',
             registered = False, channels = []\<rparr>))"
proof -
  have h: "heap (handleMessage (connect init 0 None) 0 ''NICK alice'') 0 =
     Some \<lparr>socket = \<lparr>writable = True, destroyed = False\<rparr>, nickname = Some ''alice'',
           username = None, realname = None, hostname = ''unknown'',
           registered = False, channels = []\<rparr>"
    by code_simp
  show ?thesis
    using registration_welcome_once [OF h, where parts = "[''USER'', ''alice'', ''0'', ''*'', '':Alice'', ''A'']"]
    by (simp add: truthy_def)
qed

section \<open>Messages to channels and to clients\<close>

lemma handlePrivmsg_channel:
  assumes s: "heap \<sigma> s = Some c" and r: "registered c" and p: "parts = v # target # w # rest"
    and g: "startsWith target CHR ''#''"
  shows "core (handlePrivmsg \<sigma> s parts) = core \<sigma>"
    and "out (handlePrivmsg \<sigma> s parts) = out \<sigma> @
           (if s \<in> set (members \<sigma> target) then
              written \<sigma> (filter (\<lambda>t. t \<noteq> s) (members \<sigma> target))
                (ident c @ '' PRIVMSG '' @ target @ '' :'' @ drop 1 (join_sp (w # rest)))
            else written \<sigma> [s] (reply_line (nickname c) ''404'' (target @ '' :Cannot send to channel'')))"
proof -
  show "core (handlePrivmsg \<sigma> s parts) = core \<sigma>" by (rule core_handlePrivmsg)
  show "out (handlePrivmsg \<sigma> s parts) = out \<sigma> @
           (if s \<in> set (members \<sigma> target) then
              written \<sigma> (filter (\<lambda>t. t \<noteq> s) (members \<sigma> target))
                (ident c @ '' PRIVMSG '' @ target @ '' :'' @ drop 1 (join_sp (w # rest)))
            else written \<sigma> [s] (reply_line (nickname c) ''404'' (target @ '' :Cannot send to channel'')))"
  proof (cases "map_of (srv_channels \<sigma>) target")
    case None
    then show ?thesis using s r p g
      by (simp add: handlePrivmsg_def Let_def members_def out_sendReply)
  next
    case (Some chan)
    then show ?thesis using s r p g
      by (simp add: handlePrivmsg_def Let_def members_def out_sendReply out_broadcastToChannel)
  qed
qed

lemma handlePrivmsg_direct:
  assumes s: "heap \<sigma> s = Some c" and r: "registered c" and p: "parts = v # target # w # rest"
    and g: "\<not> startsWith target CHR ''#''"
  shows "out (handlePrivmsg \<sigma> s parts) = out \<sigma> @
           (case findClientByNickname \<sigma> target of
              None \<Rightarrow> written \<sigma> [s] (reply_line (nickname c) ''401'' (target @ '' :No such nick/channel''))
            | Some t \<Rightarrow> written \<sigma> [t]
                (ident c @ '' PRIVMSG '' @ target @ '' :'' @ drop 1 (join_sp (w # rest))))"
  using s r p g
  by (simp add: handlePrivmsg_def Let_def out_sendReply out_send split: option.splits)

lemma wf_members_distinct:
  assumes "wf \<sigma>"
  shows "distinct (members \<sigma> n)"
proof (cases "map_of (srv_channels \<sigma>) n")
  case None
  then show ?thesis by (simp add: members_def)
next
  case (Some chan)
  have "wfm (srv_clients \<sigma>) (map_of (srv_channels \<sigma>)) (heap \<sigma>)" using assms by (simp add: wf_def)
  from wfm_chan [OF this Some] show ?thesis using Some by (simp add: members_def)
qed

text \<open>
  C6, as the code has it. A registered client sends PRIVMSG with a target that starts with
  \<^verbatim>\<open>#\<close> and a text (three tokens at least). If the client is not in the member list of that name (a name the
  directory does not have has no member), the only write is the 404 reply to the sender.
  If it is a member, the message line is written once to each other member whose socket is
  writable, and to nobody else; the sender gets nothing. In a reachable state the member
  list has no repetition. Neither case changes the maps or a client object.
\<close>

theorem channel_message_members_only:
  assumes "heap \<sigma> s = Some c" and "registered c"
    and "split_sp message = v # target # w # rest" and "toUpperCase v = ''PRIVMSG''"
    and "startsWith target CHR ''#''"
  shows "core (handleMessage \<sigma> s message) = core \<sigma> \<and>
         (s \<notin> set (members \<sigma> target) \<longrightarrow>
            out (handleMessage \<sigma> s message) = out \<sigma> @
              written \<sigma> [s] (reply_line (nickname c) ''404'' (target @ '' :Cannot send to channel''))) \<and>
         (s \<in> set (members \<sigma> target) \<longrightarrow>
            out (handleMessage \<sigma> s message) = out \<sigma> @
              written \<sigma> (filter (\<lambda>t. t \<noteq> s) (members \<sigma> target))
                (ident c @ '' PRIVMSG '' @ target @ '' :'' @ drop 1 (join_sp (w # rest)))) \<and>
         (reachable \<sigma> \<longrightarrow> distinct (filter (\<lambda>t. t \<noteq> s) (members \<sigma> target)))"
proof -
  have e: "handleMessage \<sigma> s message = handlePrivmsg \<sigma> s (v # target # w # rest)"
    using assms(3,4) by (simp add: handleMessage_verbs)
  show ?thesis
    unfolding e
    using handlePrivmsg_channel [OF assms(1,2) refl assms(5), of v w rest]
      wf_members_distinct [OF reachable_wf, of \<sigma> target]
    by simp
qed

theorem channel_message_members_only_witness:
  "admissible init room_events \<and>
   out (handleMessage (run room_events) 1 ''PRIVMSG #test :hi'')
     = out (run room_events) @ [(0, '':bob!bob@10.0.0.2 PRIVMSG #test :hi'' @ crlf)] \<and>
   distinct (filter (\<lambda>t. t \<noteq> 1) (members (run room_events) ''#test''))"
proof -
  have p: "split_sp ''PRIVMSG #test :hi'' = [''PRIVMSG'', ''#test'', '':hi'']" by code_simp
  have v: "toUpperCase ''PRIVMSG'' = ''PRIVMSG''" by code_simp
  have g: "startsWith ''#test'' CHR ''#''" by (simp add: startsWith_def)
  have r: "reachable (run room_events)" by (rule reachable_run [OF admissible_room])
  show ?thesis
    using channel_message_members_only [OF room_bob _ p v g] r admissible_room
    by (simp add: members_def room_channels written_def is_writable_def room_alice room_bob
        ident_def tmpl_def)
qed

text \<open>
  The claim as it was stated fails on a PRIVMSG that has a target and no text: alice is
  registered and is no member of \<^verbatim>\<open>#test\<close>, and her \<^verbatim>\<open>PRIVMSG #test\<close> is answered with 461, not
  with 404, because the handler counts the tokens before it looks at the target.
\<close>

theorem privmsg_without_text_counterexample:
  "admissible init lone_events \<and>
   map_option registered (heap (run lone_events) 0) = Some True \<and>
   toUpperCase (hd (split_sp ''PRIVMSG #test'')) = ''PRIVMSG'' \<and>
   startsWith (split_sp ''PRIVMSG #test'' ! 1) CHR ''#'' \<and>
   0 \<notin> set (members (run lone_events) ''#test'') \<and>
   drop (length (out (run lone_events))) (out (handleMessage (run lone_events) 0 ''PRIVMSG #test''))
     = [(0, '':irc.comicserver.local 461 alice PRIVMSG :Not enough parameters'' @ crlf)] \<and>
   out (handleMessage (run lone_events) 0 ''PRIVMSG #test'')
     \<noteq> out (run lone_events) @ written (run lone_events) [0]
         (reply_line (Some ''alice'') ''404'' (''#test'' @ '' :Cannot send to channel''))"
  by code_simp

text \<open>
  C10. The text of a delivered PRIVMSG (three tokens at least) is the tokens from the third
  on, joined by single spaces, without its first character, whatever that character is:
  the line written to the other members of a channel, or to the client found for a
  nickname, ends with that text. So a third token \<open>x # w\<close> loses \<open>x\<close>, also when \<open>x\<close> is not a
  colon.
\<close>

theorem privmsg_text_loses_first_character:
  assumes "heap \<sigma> s = Some c" and "registered c"
    and "parts = v # target # w # rest"
    and "line = ident c @ '' PRIVMSG '' @ target @ '' :'' @ drop 1 (join_sp (drop 2 parts))"
  shows "(startsWith target CHR ''#'' \<and> s \<in> set (members \<sigma> target) \<longrightarrow>
            out (handlePrivmsg \<sigma> s parts)
              = out \<sigma> @ written \<sigma> (filter (\<lambda>t. t \<noteq> s) (members \<sigma> target)) line) \<and>
         (\<not> startsWith target CHR ''#'' \<and> findClientByNickname \<sigma> target = Some t \<longrightarrow>
            out (handlePrivmsg \<sigma> s parts) = out \<sigma> @ written \<sigma> [t] line) \<and>
         (\<forall>x w'. w = x # w' \<longrightarrow> drop 1 (join_sp (drop 2 parts)) = join_sp (w' # rest))"
proof (intro conjI impI allI)
  assume "startsWith target CHR ''#'' \<and> s \<in> set (members \<sigma> target)"
  then show "out (handlePrivmsg \<sigma> s parts)
              = out \<sigma> @ written \<sigma> (filter (\<lambda>t. t \<noteq> s) (members \<sigma> target)) line"
    using handlePrivmsg_channel(2) [OF assms(1,2,3)] assms(3,4) by simp
next
  assume "\<not> startsWith target CHR ''#'' \<and> findClientByNickname \<sigma> target = Some t"
  then show "out (handlePrivmsg \<sigma> s parts) = out \<sigma> @ written \<sigma> [t] line"
    using handlePrivmsg_direct [OF assms(1,2,3)] assms(3,4) by simp
next
  fix x w' assume "w = x # w'"
  then show "drop 1 (join_sp (drop 2 parts)) = join_sp (w' # rest)"
    using assms(3) by (cases rest) simp_all
qed

theorem privmsg_text_loses_first_character_witness:
  "out (handlePrivmsg (run room_events) 1 [''PRIVMSG'', ''#test'', ''hello'', ''world''])
     = out (run room_events) @ [(0, '':bob!bob@10.0.0.2 PRIVMSG #test :ello world'' @ crlf)] \<and>
   drop 1 (join_sp (drop 2 [''PRIVMSG'', ''#test'', ''hello'', ''world''])) = join_sp [''ello'', ''world'']"
  using privmsg_text_loses_first_character [OF room_bob _ refl refl,
      where v = "''PRIVMSG''" and target = "''#test''" and w = "''hello''" and rest = "[''world'']"]
  by (simp add: members_def room_channels written_def is_writable_def room_alice room_bob
      ident_def tmpl_def startsWith_def)

section \<open>Leaving a channel\<close>

lemma members_leave_channel:
  "members (\<sigma>'\<lparr>srv_channels := leave_channel s n chan (srv_channels \<sigma>), heap := hp\<rparr>) k =
     (if k = n then removeAll s (clients chan) else members \<sigma> k)"
  by (simp add: members_def map_of_leave_channel)

lemma keys_leave_channel:
  assumes "map_of chans n = Some chan"
  shows "n \<in> fst ` set (leave_channel s n chan chans) \<longleftrightarrow> removeAll s (clients chan) \<noteq> []"
proof -
  have "n \<in> fst ` set (leave_channel s n chan chans) \<longleftrightarrow> map_of (leave_channel s n chan chans) n \<noteq> None"
    by (simp add: map_of_eq_None_iff)
  then show ?thesis by (simp add: map_of_leave_channel)
qed

lemma length_removeAll_distinct:
  "distinct xs \<Longrightarrow> x \<in> set xs \<Longrightarrow> length (removeAll x xs) + 1 = length xs"
  by (induction xs) auto

lemma removeAll_Nil_iff: "removeAll x xs = [] \<longleftrightarrow> set xs \<subseteq> {x}"
  by (induction xs) auto

lemma handlePart_member:
  assumes s: "heap \<sigma> s = Some c" and r: "registered c" and p: "parts = v # n # rest"
    and ch: "map_of (srv_channels \<sigma>) n = Some chan" and m: "s \<in> set (clients chan)"
  shows "handlePart \<sigma> s parts =
           (broadcastToChannel \<sigma> chan
              (ident c @ '' PART '' @ n @
                 (if join_sp rest \<noteq> [] then
                    '' :'' @ (if startsWith (join_sp rest) CHR '':'' then drop 1 (join_sp rest) else join_sp rest)
                  else [])) None)
           \<lparr>srv_channels := leave_channel s n chan (srv_channels \<sigma>),
            heap := (heap \<sigma>)(s \<mapsto> c\<lparr>channels := removeAll n (channels c)\<rparr>)\<rparr>"
  using assms by (simp add: handlePart_def Let_def)

text \<open>
  C7. A client that is in the member list of a channel sends PART for it, in a reachable
  state. The part notice is written to every member whose socket is writable, the sender
  among them, on the membership as it was before the removal. After the step the sender is
  not a member and does not list the channel; if it was the only member the name is not in
  the directory any more; otherwise the name is still there and the member list is the old
  one without the sender, one shorter. Other channels and the registry are as before.
\<close>

theorem part_notice_then_removal:
  assumes "reachable \<sigma>" and "heap \<sigma> s = Some c"
    and "split_sp message = v # n # rest" and "toUpperCase v = ''PART''"
    and "s \<in> set (members \<sigma> n)"
    and "\<sigma>' = handleMessage \<sigma> s message"
  shows "out \<sigma>' = out \<sigma> @ written \<sigma> (members \<sigma> n)
           (ident c @ '' PART '' @ n @
              (if join_sp rest \<noteq> [] then
                 '' :'' @ (if startsWith (join_sp rest) CHR '':'' then drop 1 (join_sp rest) else join_sp rest)
               else [])) \<and>
         members \<sigma>' n = removeAll s (members \<sigma> n) \<and>
         heap \<sigma>' s = Some (c\<lparr>channels := removeAll n (channels c)\<rparr>) \<and>
         (set (members \<sigma> n) = {s} \<longrightarrow> n \<notin> fst ` set (srv_channels \<sigma>')) \<and>
         (set (members \<sigma> n) \<noteq> {s} \<longrightarrow>
            n \<in> fst ` set (srv_channels \<sigma>') \<and> length (members \<sigma>' n) + 1 = length (members \<sigma> n)) \<and>
         (\<forall>k. k \<noteq> n \<longrightarrow> members \<sigma>' k = members \<sigma> k) \<and>
         srv_clients \<sigma>' = srv_clients \<sigma>"
proof -
  have w: "wf \<sigma>" using assms(1) by (rule reachable_wf)
  from assms(5) obtain chan where ch: "map_of (srv_channels \<sigma>) n = Some chan"
    and m: "s \<in> set (clients chan)" and mm: "members \<sigma> n = clients chan"
    by (cases "map_of (srv_channels \<sigma>) n") (auto simp: members_def)
  have r: "registered c" using wf_member_lists [OF w assms(5)] assms(2) by simp
  have d: "distinct (clients chan)" using wf_members_distinct [OF w, of n] mm by simp
  have e: "\<sigma>' = (broadcastToChannel \<sigma> chan
              (ident c @ '' PART '' @ n @
                 (if join_sp rest \<noteq> [] then
                    '' :'' @ (if startsWith (join_sp rest) CHR '':'' then drop 1 (join_sp rest) else join_sp rest)
                  else [])) None)
           \<lparr>srv_channels := leave_channel s n chan (srv_channels \<sigma>),
            heap := (heap \<sigma>)(s \<mapsto> c\<lparr>channels := removeAll n (channels c)\<rparr>)\<rparr>"
    using assms(3,4,6) handlePart_member [OF assms(2) r refl ch m, of v rest]
    by (simp add: handleMessage_verbs)
  have last_iff: "removeAll s (clients chan) = [] \<longleftrightarrow> set (clients chan) = {s}"
    using m by (auto simp: removeAll_Nil_iff)
  have o: "out \<sigma>' = out \<sigma> @ written \<sigma> (members \<sigma> n)
           (ident c @ '' PART '' @ n @
              (if join_sp rest \<noteq> [] then
                 '' :'' @ (if startsWith (join_sp rest) CHR '':'' then drop 1 (join_sp rest) else join_sp rest)
               else []))"
    unfolding e by (simp add: out_broadcastToChannel mm)
  have ms: "members \<sigma>' k = (if k = n then removeAll s (clients chan) else members \<sigma> k)" for k
    unfolding e by (rule members_leave_channel)
  have h: "heap \<sigma>' s = Some (c\<lparr>channels := removeAll n (channels c)\<rparr>)" unfolding e by simp
  have k: "n \<in> fst ` set (srv_channels \<sigma>') \<longleftrightarrow> set (clients chan) \<noteq> {s}"
    unfolding e using keys_leave_channel [OF ch, of s] last_iff by simp
  have l: "length (removeAll s (clients chan)) + 1 = length (clients chan)"
    using d m by (rule length_removeAll_distinct)
  have cl: "srv_clients \<sigma>' = srv_clients \<sigma>" unfolding e by simp
  show ?thesis using o ms h k l cl mm by simp
qed

theorem part_notice_then_removal_witness:
  "admissible init room_events \<and>
   out (handleMessage (run room_events) 1 ''PART #test :see you'')
     = out (run room_events) @ [(0, '':bob!bob@10.0.0.2 PART #test :see you'' @ crlf),
                                (1, '':bob!bob@10.0.0.2 PART #test :see you'' @ crlf)] \<and>
   members (handleMessage (run room_events) 1 ''PART #test :see you'') ''#test'' = [0] \<and>
   ''#test'' \<in> fst ` set (srv_channels (handleMessage (run room_events) 1 ''PART #test :see you''))"
proof -
  have p: "split_sp ''PART #test :see you'' = [''PART'', ''#test'', '':see'', ''you'']" by code_simp
  have v: "toUpperCase ''PART'' = ''PART''" by code_simp
  have r: "reachable (run room_events)" by (rule reachable_run [OF admissible_room])
  have m: "1 \<in> set (members (run room_events) ''#test'')" by (simp add: members_def room_channels)
  show ?thesis
    using part_notice_then_removal [OF r room_bob p v m refl] admissible_room
    by (simp add: members_def room_channels written_def is_writable_def room_alice
        room_bob [unfolded One_nat_def] ident_def tmpl_def startsWith_def)
qed

section \<open>WHO\<close>

lemma has_nick_cong: "heap \<sigma>' = heap \<sigma> \<Longrightarrow> has_nick \<sigma>' = has_nick \<sigma>"
  by (intro ext) (simp add: has_nick_def)

lemma who_line_cong: "heap \<sigma>' = heap \<sigma> \<Longrightarrow> who_line \<sigma>' = who_line \<sigma>"
  by (intro ext) (simp add: who_line_def)

lemma who_entries_out:
  assumes "heap \<sigma> s = Some c"
  shows "out (who_entries \<sigma> s target ms) = out \<sigma> @
           concat (map (\<lambda>m. written \<sigma> [s] (who_line \<sigma> (nickname c) target m)) (filter (has_nick \<sigma>) ms))"
  using assms
proof (induction ms arbitrary: \<sigma>)
  case Nil
  then show ?case by (simp add: who_entries_def)
next
  case (Cons m ms)
  let ?\<sigma>1 = "case heap \<sigma> m of
               None \<Rightarrow> \<sigma>
             | Some mc \<Rightarrow>
                 if truthy (nickname mc) then
                   sendReply \<sigma> s ''352''
                     (target @ '' '' @ tmpl (username mc) @ '' '' @ hostname mc @ '' '' @ serverName
                      @ '' '' @ tmpl (nickname mc) @ '' H :0 '' @ tmpl (realname mc))
                 else \<sigma>"
  have h1: "heap ?\<sigma>1 = heap \<sigma>" by (simp split: option.splits)
  have e: "who_entries \<sigma> s target (m # ms) = who_entries ?\<sigma>1 s target ms"
    by (simp add: who_entries_def)
  have o1: "out ?\<sigma>1 = out \<sigma> @
              concat (map (\<lambda>m. written \<sigma> [s] (who_line \<sigma> (nickname c) target m)) (filter (has_nick \<sigma>) [m]))"
    using Cons.prems
    by (simp add: has_nick_def who_line_def out_sendReply split: option.splits)
  have "out (who_entries ?\<sigma>1 s target ms) = out ?\<sigma>1 @
           concat (map (\<lambda>m. written ?\<sigma>1 [s] (who_line ?\<sigma>1 (nickname c) target m)) (filter (has_nick ?\<sigma>1) ms))"
    by (rule Cons.IH) (simp add: h1 Cons.prems)
  then show ?case
    unfolding e o1 has_nick_cong [OF h1] who_line_cong [OF h1] written_cong [OF h1] by simp
qed

text \<open>
  C8, as the code has it. A registered client sends WHO. Without a target the output is the
  315 line alone. With a target that starts with \<^verbatim>\<open>#\<close> and names a channel of which the client
  is a member, the output is one 352 line for each member whose nickname is not empty, in
  the order of the member list, and then the 315 line; a member with an empty nickname gets
  no line. With such a target of which the client is not a member, the output is the 315
  line alone. All lines go to the requester, and nothing but output changes.
\<close>

theorem who_lists_members_with_nickname:
  assumes "heap \<sigma> s = Some c" and "registered c"
  shows "core (handleWho \<sigma> s parts) = core \<sigma> \<and>
         (parts = [v] \<longrightarrow>
            out (handleWho \<sigma> s parts) = out \<sigma> @
              written \<sigma> [s] (reply_line (nickname c) ''315'' ''* :End of /WHO list'')) \<and>
         (parts = v # target # rest \<and> startsWith target CHR ''#'' \<and> s \<in> set (members \<sigma> target) \<longrightarrow>
            out (handleWho \<sigma> s parts) = out \<sigma> @
              concat (map (\<lambda>m. written \<sigma> [s] (who_line \<sigma> (nickname c) target m))
                        (filter (has_nick \<sigma>) (members \<sigma> target))) @
              written \<sigma> [s] (reply_line (nickname c) ''315'' (target @ '' :End of /WHO list''))) \<and>
         (parts = v # target # rest \<and> startsWith target CHR ''#'' \<and> s \<notin> set (members \<sigma> target) \<longrightarrow>
            out (handleWho \<sigma> s parts) = out \<sigma> @
              written \<sigma> [s] (reply_line (nickname c) ''315'' (target @ '' :End of /WHO list'')))"
proof (intro conjI impI)
  show "core (handleWho \<sigma> s parts) = core \<sigma>" by (rule core_handleWho)
next
  assume "parts = [v]"
  then show "out (handleWho \<sigma> s parts) = out \<sigma> @
              written \<sigma> [s] (reply_line (nickname c) ''315'' ''* :End of /WHO list'')"
    using assms by (simp add: handleWho_def out_sendReply)
next
  assume a: "parts = v # target # rest \<and> startsWith target CHR ''#'' \<and> s \<in> set (members \<sigma> target)"
  then obtain chan where ch: "map_of (srv_channels \<sigma>) target = Some chan"
    and m: "s \<in> set (clients chan)" and mm: "members \<sigma> target = clients chan"
    by (cases "map_of (srv_channels \<sigma>) target") (auto simp: members_def)
  have e: "handleWho \<sigma> s parts
             = sendReply (who_entries \<sigma> s target (clients chan)) s ''315'' (target @ '' :End of /WHO list'')"
    using assms a ch m by (simp add: handleWho_def Let_def)
  have h: "heap (who_entries \<sigma> s target (clients chan)) = heap \<sigma>"
    using core_who_entries [of \<sigma> s target "clients chan"] by (simp add: core_def)
  show "out (handleWho \<sigma> s parts) = out \<sigma> @
              concat (map (\<lambda>m. written \<sigma> [s] (who_line \<sigma> (nickname c) target m))
                        (filter (has_nick \<sigma>) (members \<sigma> target))) @
              written \<sigma> [s] (reply_line (nickname c) ''315'' (target @ '' :End of /WHO list''))"
    unfolding e mm
    using out_sendReply [of "who_entries \<sigma> s target (clients chan)" s c] assms(1) h
      who_entries_out [OF assms(1), of target "clients chan"] written_cong [OF h]
    by simp
next
  assume a: "parts = v # target # rest \<and> startsWith target CHR ''#'' \<and> s \<notin> set (members \<sigma> target)"
  then show "out (handleWho \<sigma> s parts) = out \<sigma> @
              written \<sigma> [s] (reply_line (nickname c) ''315'' (target @ '' :End of /WHO list''))"
    using assms by (cases "map_of (srv_channels \<sigma>) target")
      (simp_all add: handleWho_def Let_def out_sendReply members_def)
qed

theorem who_lists_members_with_nickname_witness:
  "out (handleWho (run room_events) 1 [''WHO'', ''#test''])
     = out (run room_events) @
       [(1, '':irc.comicserver.local 352 bob #test alice unknown irc.comicserver.local alice H :0 Alice A'' @ crlf),
        (1, '':irc.comicserver.local 352 bob #test bob 10.0.0.2 irc.comicserver.local bob H :0 Bob B'' @ crlf),
        (1, '':irc.comicserver.local 315 bob #test :End of /WHO list'' @ crlf)]"
  using who_lists_members_with_nickname [OF room_bob, where parts = "[''WHO'', ''#test'']"
      and v = "''WHO''" and target = "''#test''" and rest = "[]"]
  by (simp add: members_def room_channels written_def is_writable_def room_alice
      room_bob [unfolded One_nat_def] has_nick_def who_line_def truthy_def tmpl_def
      reply_line_def or_default_def serverName_def startsWith_def)

text \<open>
  The claim as it was stated fails when a member has the empty nickname: after the run in
  which alice's nickname became empty, \<^verbatim>\<open>#test\<close> has two members, bob is one of them, and his
  WHO is answered with one 352 line, his own, before the 315 line.
\<close>

theorem who_skips_empty_nickname_counterexample:
  "admissible init blank_nick_events \<and>
   members (run blank_nick_events) ''#test'' = [0, 1] \<and>
   drop (length (out (run blank_nick_events)))
        (out (handleMessage (run blank_nick_events) 1 ''WHO #test''))
     = [(1, '':irc.comicserver.local 352 bob #test bob 10.0.0.2 irc.comicserver.local bob H :0 Bob B'' @ crlf),
        (1, '':irc.comicserver.local 315 bob #test :End of /WHO list'' @ crlf)]"
  by code_simp

section \<open>Notices of a nickname change\<close>

text \<open>
  C9, as the code has it. A registered client whose nickname is not empty sends a NICK that
  is accepted. For every channel name the client lists, in order, the notice is written to
  each other member of that channel whose socket is writable; the notice starts with the
  old nickname, the username and the host, and ends with the new nickname. The client's
  object then carries the new nickname.
\<close>

theorem nick_change_notice_old_prefix:
  assumes "heap \<sigma> s = Some c" and "registered c"
    and "nickname c = Some old" and "old \<noteq> []"
    and "split_sp message = v # n # rest" and "toUpperCase v = ''NICK''"
    and "\<not> nick_in_use \<sigma> s n"
  shows "heap (handleMessage \<sigma> s message) s = Some (c\<lparr>nickname := Some n\<rparr>) \<and>
         out (handleMessage \<sigma> s message) = out \<sigma> @
           concat (map (\<lambda>k. written \<sigma> (filter (\<lambda>t. t \<noteq> s) (members \<sigma> k))
                             ('':'' @ old @ ''!'' @ tmpl (username c) @ ''@'' @ hostname c
                              @ '' NICK :'' @ n))
                       (channels c))"
proof -
  have e: "handleMessage \<sigma> s message = handleNick \<sigma> s (v # n # rest)"
    using assms(5,6) by (simp add: handleMessage_verbs)
  show ?thesis
    unfolding e
    using handleNick_registered(3,4) [OF assms(1,2) refl assms(7), of v rest] assms(3,4)
    by (simp add: truthy_def tmpl_def)
qed

theorem nick_change_notice_old_prefix_witness:
  "heap (handleMessage (run room_events) 0 ''NICK carol'') 0
     = Some \<lparr>socket = \<lparr>writable = True, destroyed = False\<rparr>, nickname = Some ''carol'',
             username = Some ''alice'', realname = Some ''Alice A'', hostname = ''unknown'',
             registered = True, channels = [''#test'']\<rparr> \<and>
   out (handleMessage (run room_events) 0 ''NICK carol'')
     = out (run room_events) @ [(1, '':alice!alice@unknown NICK :carol'' @ crlf)]"
proof -
  have p: "split_sp ''NICK carol'' = [''NICK'', ''carol'']" by code_simp
  have v: "toUpperCase ''NICK'' = ''NICK''" by code_simp
  have f: "\<not> nick_in_use (run room_events) 0 ''carol''"
    by (simp add: nick_in_use_def room_clients room_bob [unfolded One_nat_def])
  show ?thesis
    using nick_change_notice_old_prefix [OF room_alice _ _ _ p v f, of "''alice''"]
    by (simp add: members_def room_channels written_def is_writable_def
        room_bob [unfolded One_nat_def] tmpl_def)
qed

text \<open>
  The claim as it was stated fails for a registered client whose nickname is empty: after
  the run in which alice's nickname became empty she is registered and shares \<^verbatim>\<open>#test\<close> with
  bob, whose socket is writable; her next NICK is accepted and nothing is written.
\<close>

theorem nick_change_without_notice_counterexample:
  "admissible init blank_nick_events \<and>
   map_option registered (heap (run blank_nick_events) 0) = Some True \<and>
   map_option nickname (heap (run blank_nick_events) 0) = Some (Some []) \<and>
   map_option channels (heap (run blank_nick_events) 0) = Some [''#test''] \<and>
   members (run blank_nick_events) ''#test'' = [0, 1] \<and>
   is_writable (run blank_nick_events) 1 \<and>
   map_option nickname (heap (handleMessage (run blank_nick_events) 0 ''NICK carol'') 0)
     = Some (Some ''carol'') \<and>
   out (handleMessage (run blank_nick_events) 0 ''NICK carol'') = out (run blank_nick_events)"
  by code_simp

section \<open>A socket that closes\<close>

lemma out_removeClient: "out (removeClient \<sigma> s) = out \<sigma>"
  by (simp add: removeClient_def split: option.splits)

text \<open>
  C1 at the run of the specification's scenario: alice and bob are in \<^verbatim>\<open>#test\<close> and alice's
  socket closes. She leaves the registry and the channel, which stays with bob, and nothing
  is written: bob gets no quit notice. The QUIT command in the same state writes that
  notice to bob.
\<close>

theorem close_writes_no_quit_notice:
  "srv_clients (step (run room_events) (Close 0)) = [1] \<and>
   members (step (run room_events) (Close 0)) ''#test'' = [1] \<and>
   out (step (run room_events) (Close 0)) = out (run room_events) \<and>
   drop (length (out (run room_events))) (out (handleMessage (run room_events) 0 ''QUIT :bye''))
     = [(1, '':alice!alice@unknown QUIT :bye'' @ crlf)]"
  by code_simp

end
